theory Spec2Isabelle
  imports Complex_Main "HOL-Library.Multiset"
begin

section \<open>Tags and the matrix interface used by the rank-2k update\<close>

text \<open>
  The enumerations of \<^verbatim>\<open>slate/types.hh\<close> that
  \<^verbatim>\<open>src/internal/internal_syr2k.cc\<close> mentions.
\<close>

datatype Op = NoTrans | Trans | ConjTrans

datatype Uplo = Lower | Upper

datatype Target = HostTask | HostNest | HostBatch | Devices

datatype Layout = ColMajor | RowMajor

text \<open>
  The three operands of the update.  A tile is named by its matrix and its block
  coordinates; the value \<open>(MatA, i, 0)\<close> stands for \<^verbatim>\<open>A(i, 0)\<close> and, in a
  pointer array of a batched call, for \<^verbatim>\<open>A(i, 0, device).data()\<close>.
\<close>

datatype matrix_id = MatA | MatB | MatC

type_synonym tile_id = "matrix_id \<times> int \<times> int"

text \<open>
  \<^verbatim>\<open>Matrix<scalar_t>\<close> and \<^verbatim>\<open>SymmetricMatrix<scalar_t>\<close> are declared outside
  the files at hand.  The record keeps exactly the accessors that the source calls:
  \<^verbatim>\<open>mt()\<close>, \<^verbatim>\<open>nt()\<close>, \<^verbatim>\<open>op()\<close>, \<^verbatim>\<open>tileIsLocal(i, j)\<close>,
  \<^verbatim>\<open>tileDevice(i, j)\<close>, \<^verbatim>\<open>tileMb(i)\<close>, \<^verbatim>\<open>tileNb(j)\<close>,
  \<^verbatim>\<open>num_devices()\<close>, and for the symmetric matrix \<^verbatim>\<open>uploPhysical()\<close> and
  \<^verbatim>\<open>is_real\<close>.  Indices are \<^verbatim>\<open>int64_t\<close> in the source; no claim below
  depends on overflow, so they are unbounded integers here.
\<close>

record Matrix =
  mt :: int
  nt :: int
  op :: Op
  tileIsLocal :: "int \<Rightarrow> int \<Rightarrow> bool"
  tileDevice :: "int \<Rightarrow> int \<Rightarrow> int"
  tileMb :: "int \<Rightarrow> int"
  tileNb :: "int \<Rightarrow> int"
  num_devices :: int

record SymmetricMatrix = Matrix +
  uploPhysical :: Uplo
  is_real :: bool

text \<open>
  Modelled from the spec: the accessor \<^verbatim>\<open>C.uplo()\<close> of the symmetric matrix class,
  which is not among the files at hand.  The spec's precondition speaks of "C's stored
  triangle ... after normalizing for C's transpose tag", and the comment above the
  dispatcher reads "C is Lower, NoTrans or Upper, Trans/ConjTrans": the logical
  triangle is the physical one when the operator is \<open>NoTrans\<close> and the opposite one
  otherwise.
\<close>

definition uplo :: "'x SymmetricMatrix_scheme \<Rightarrow> Uplo" where
  "uplo C =
     (if op C = NoTrans then uploPhysical C
      else (case uploPhysical C of Lower \<Rightarrow> Upper | Upper \<Rightarrow> Lower))"

section \<open>Calls, concurrent units and their outcomes\<close>

text \<open>
  What a realization does is recorded as the calls it makes on the tile registry,
  the single-tile kernels and the batched back-ends, with the arguments the source
  passes.  Strides are left out (a \<open>tile_id\<close> stands for the pair of data pointer and
  stride of that tile), and so is the queue argument of the device calls, which is
  always the one compute queue \<^verbatim>\<open>C.compute_queue(device, queue_index)\<close> that
  \<open>queue_sync device queue_index\<close> waits for.
\<close>

datatype operand = tile tile_id | transpose tile_id

datatype 'a call =
    tileGetForReading matrix_id int int
  | tileGetForWriting matrix_id int int
  | tileGetForReading_dev matrix_id int int int
  | tileGetForWriting_dev matrix_id int int int
  | tileGetForReading_set matrix_id "(int \<times> int) set" int
  | tileGetForWriting_set matrix_id "(int \<times> int) set" int
  | tileTick matrix_id int int
  | tileRelease matrix_id int int int
  | syr2k_tile 'a tile_id tile_id 'a tile_id
  | gemm_tile 'a operand operand 'a tile_id
  | cblas_gemm_batch "Op list" "Op list" "int list" "int list" "int list"
      "'a list" "tile_id list" "tile_id list" "'a list" "tile_id list" int
  | blas_syr2k Layout Uplo Op int int 'a tile_id tile_id 'a tile_id
  | blas_batch_gemm Layout Op Op int int int 'a "tile_id list" "tile_id list" 'a
      "tile_id list" int
  | blas_batch_syr2k Layout Uplo Op int int 'a "tile_id list" "tile_id list" 'a
      "tile_id list" int
  | queue_sync int int

text \<open>
  The exceptions of the source: \<^verbatim>\<open>throw std::exception()\<close>, and the exception of
  \<^verbatim>\<open>slate_not_implemented\<close>.
\<close>

datatype exn = std_exception | NotImplementedException

text \<open>
  A statement of a task body is a call, an explicit \<^verbatim>\<open>throw\<close>, or a nested
  \<^verbatim>\<open>#pragma omp task\<close> whose own body is a list of calls without a handler.
  Which calls throw is not decided by this file: it is the parameter \<open>throws\<close>.
\<close>

datatype 'a stmt = Do "'a call" | Throw exn | ChildTask "'a call list"

datatype status = Ok | Exn exn | Esc

text \<open>
  Running a body: the calls completed so far, and how the body ended.  \<open>Exn\<close> is an
  exception on its way to the enclosing handler of the same task; \<open>Esc\<close> is an
  exception thrown inside a nested task, which no handler of the enclosing task
  can catch.
\<close>

fun exec_calls :: "('a call \<Rightarrow> bool) \<Rightarrow> 'a call list \<Rightarrow> 'a call list \<times> bool" where
  "exec_calls throws [] = ([], False)"
| "exec_calls throws (c # cs) =
     (if throws c then ([], True)
      else (case exec_calls throws cs of (tr, b) \<Rightarrow> (c # tr, b)))"

fun exec_body :: "('a call \<Rightarrow> bool) \<Rightarrow> 'a stmt list \<Rightarrow> 'a call list \<times> status" where
  "exec_body throws [] = ([], Ok)"
| "exec_body throws (Do c # ss) =
     (if throws c then ([], Exn std_exception)
      else (case exec_body throws ss of (tr, st) \<Rightarrow> (c # tr, st)))"
| "exec_body throws (Throw e # ss) = ([], Exn e)"
| "exec_body throws (ChildTask cs # ss) =
     (case exec_calls throws cs of
        (tr, True) \<Rightarrow> (tr, Esc)
      | (tr, False) \<Rightarrow> (case exec_body throws ss of (tr', st) \<Rightarrow> (tr @ tr', st)))"

text \<open>
  A concurrent unit of work (\<^verbatim>\<open>#pragma omp task\<close>, or one iteration of the
  \<^verbatim>\<open>parallel for\<close>) ends in one of three ways: it ran to its end; an exception was
  caught by its own handler, which stores \<^verbatim>\<open>__LINE__\<close> in the shared \<^verbatim>\<open>err\<close>; or an
  exception left the unit.
\<close>

datatype unit_outcome = Completed | Caught int | Escaped

record 'a unit_result =
  completed_calls :: "'a call list"
  outcome :: unit_outcome

text \<open>A unit whose body is wrapped in \<^verbatim>\<open>try { ... } catch (std::exception& e) { err = __LINE__; }\<close>.\<close>

definition task_try :: "('a call \<Rightarrow> bool) \<Rightarrow> int \<Rightarrow> 'a stmt list \<Rightarrow> 'a unit_result" where
  "task_try throws line body =
     (case exec_body throws body of
        (tr, Ok) \<Rightarrow> \<lparr>completed_calls = tr, outcome = Completed\<rparr>
      | (tr, Exn e) \<Rightarrow> \<lparr>completed_calls = tr, outcome = Caught line\<rparr>
      | (tr, Esc) \<Rightarrow> \<lparr>completed_calls = tr, outcome = Escaped\<rparr>)"

text \<open>A unit whose body has no handler.\<close>

definition task_plain :: "('a call \<Rightarrow> bool) \<Rightarrow> 'a stmt list \<Rightarrow> 'a unit_result" where
  "task_plain throws body =
     (case exec_body throws body of
        (tr, Ok) \<Rightarrow> \<lparr>completed_calls = tr, outcome = Completed\<rparr>
      | (tr, Exn e) \<Rightarrow> \<lparr>completed_calls = tr, outcome = Escaped\<rparr>
      | (tr, Esc) \<Rightarrow> \<lparr>completed_calls = tr, outcome = Escaped\<rparr>)"

text \<open>
  How a call of a realization ends, and what it did: the units it spawned (in the
  order of spawning), the calls the calling thread completed itself, whether the
  final \<^verbatim>\<open>#pragma omp taskwait\<close> was reached, and the result.
\<close>

datatype result = Returned | Raised exn | AssertionFailed | UncaughtInTask

record 'a run =
  units :: "'a unit_result list"
  main_calls :: "'a call list"
  joined :: bool
  result :: result

text \<open>The shared \<^verbatim>\<open>err\<close> is nonzero exactly when some unit's handler wrote it.\<close>

definition err_set :: "'a unit_result list \<Rightarrow> bool" where
  "err_set us = (\<exists>u \<in> set us. \<exists>l. outcome u = Caught l)"

definition escaped :: "'a unit_result list \<Rightarrow> bool" where
  "escaped us = (\<exists>u \<in> set us. outcome u = Escaped)"

text \<open>
  The end of every realization: \<^verbatim>\<open>#pragma omp taskwait\<close>, then
  \<^verbatim>\<open>if (err) throw std::exception();\<close>.  An exception that left a unit is not
  defined behaviour of the task construct; the model reports it as \<open>UncaughtInTask\<close>.
\<close>

definition taskwait_and_rethrow :: "'a unit_result list \<Rightarrow> 'a call list \<Rightarrow> 'a run" where
  "taskwait_and_rethrow us mc =
     \<lparr>units = us, main_calls = mc, joined = True,
      result = (if escaped us then UncaughtInTask
                else if err_set us then Raised std_exception else Returned)\<rparr>"

section \<open>Host task-parallel realization\<close>

text \<open>
  Body of the task for a diagonal tile \<open>(j, j)\<close> (source lines 79--87): every
  statement is a call.
\<close>

definition diag_calls :: "'a \<Rightarrow> 'a \<Rightarrow> int \<Rightarrow> 'a call list" where
  "diag_calls alpha beta j =
     [tileGetForReading MatA j 0,
      tileGetForReading MatB j 0,
      tileGetForWriting MatC j j,
      syr2k_tile alpha (MatA, j, 0) (MatB, j, 0) beta (MatC, j, j),
      tileTick MatA j 0,
      tileTick MatB j 0]"

definition diag_body :: "'a \<Rightarrow> 'a \<Rightarrow> int \<Rightarrow> 'a stmt list" where
  "diag_body alpha beta j = map Do (diag_calls alpha beta j)"

text \<open>Body of the task for an off-diagonal tile \<open>(i, j)\<close> (source lines 98--115).\<close>

definition offdiag_calls :: "'a::one \<Rightarrow> 'a \<Rightarrow> int \<Rightarrow> int \<Rightarrow> 'a call list" where
  "offdiag_calls alpha beta i j =
     [tileGetForReading MatA i 0,
      tileGetForReading MatA j 0,
      tileGetForReading MatB i 0,
      tileGetForReading MatB j 0,
      tileGetForWriting MatC i j,
      gemm_tile alpha (tile (MatA, i, 0)) (transpose (MatB, j, 0)) beta (MatC, i, j),
      gemm_tile alpha (tile (MatB, i, 0)) (transpose (MatA, j, 0)) 1 (MatC, i, j),
      tileTick MatA i 0,
      tileTick MatA j 0,
      tileTick MatB i 0,
      tileTick MatB j 0]"

definition offdiag_body :: "'a::one \<Rightarrow> 'a \<Rightarrow> int \<Rightarrow> int \<Rightarrow> 'a stmt list" where
  "offdiag_body alpha beta i j = map Do (offdiag_calls alpha beta i j)"

text \<open>
  The loop nest \<^verbatim>\<open>for j in [0, nt) for i in [j, mt)\<close> over the lower triangle,
  keeping the local tiles.
\<close>

definition lower_local :: "'x Matrix_scheme \<Rightarrow> (int \<times> int) list" where
  "lower_local C = [(i, j). j \<leftarrow> [0..nt C - 1], i \<leftarrow> [j..mt C - 1], tileIsLocal C i j]"

definition syr2k_HostTask ::
  "('a::one call \<Rightarrow> bool) \<Rightarrow> 'a \<Rightarrow> 'a \<Rightarrow> 'x SymmetricMatrix_scheme \<Rightarrow> Layout \<Rightarrow> 'a run" where
  "syr2k_HostTask throws alpha beta C layout =
     (if layout \<noteq> ColMajor
      then \<lparr>units = [], main_calls = [], joined = False, result = AssertionFailed\<rparr>
      else taskwait_and_rethrow
             (map (\<lambda>(i, j). if i = j then task_try throws 90 (diag_body alpha beta j)
                             else task_try throws 118 (offdiag_body alpha beta i j))
                  (lower_local C))
             [])"

section \<open>Host nested-parallel realization\<close>

text \<open>
  Body of one iteration of the collapsed \<^verbatim>\<open>parallel for\<close> (source lines 184--201):
  only \<^verbatim>\<open>A(i, 0)\<close> and \<^verbatim>\<open>B(j, 0)\<close> are fetched, all four input tiles are used and
  ticked.
\<close>

definition nest_offdiag_calls :: "'a::one \<Rightarrow> 'a \<Rightarrow> int \<Rightarrow> int \<Rightarrow> 'a call list" where
  "nest_offdiag_calls alpha beta i j =
     [tileGetForReading MatA i 0,
      tileGetForReading MatB j 0,
      tileGetForWriting MatC i j,
      gemm_tile alpha (tile (MatA, i, 0)) (transpose (MatB, j, 0)) beta (MatC, i, j),
      gemm_tile alpha (tile (MatB, i, 0)) (transpose (MatA, j, 0)) 1 (MatC, i, j),
      tileTick MatA i 0,
      tileTick MatA j 0,
      tileTick MatB i 0,
      tileTick MatB j 0]"

definition nest_offdiag_body :: "'a::one \<Rightarrow> 'a \<Rightarrow> int \<Rightarrow> int \<Rightarrow> 'a stmt list" where
  "nest_offdiag_body alpha beta i j = map Do (nest_offdiag_calls alpha beta i j)"

definition diag_local :: "'x Matrix_scheme \<Rightarrow> int list" where
  "diag_local C = [j. j \<leftarrow> [0..nt C - 1], tileIsLocal C j j]"

text \<open>The loop nest \<^verbatim>\<open>for j in [0, nt) for i in [0, mt) if (i >= j+1)\<close>.\<close>

definition nest_strictly_lower_local :: "'x Matrix_scheme \<Rightarrow> (int \<times> int) list" where
  "nest_strictly_lower_local C =
     [(i, j). j \<leftarrow> [0..nt C - 1], i \<leftarrow> [0..mt C - 1], i \<ge> j + 1, tileIsLocal C i j]"

definition syr2k_HostNest ::
  "('a::one call \<Rightarrow> bool) \<Rightarrow> 'a \<Rightarrow> 'a \<Rightarrow> 'x SymmetricMatrix_scheme \<Rightarrow> Layout \<Rightarrow> 'a run" where
  "syr2k_HostNest throws alpha beta C layout =
     (if layout \<noteq> ColMajor
      then \<lparr>units = [], main_calls = [], joined = False, result = AssertionFailed\<rparr>
      else taskwait_and_rethrow
             (map (\<lambda>j. task_try throws 169 (diag_body alpha beta j)) (diag_local C)
              @ map (\<lambda>(i, j). task_try throws 203 (nest_offdiag_body alpha beta i j))
                  (nest_strictly_lower_local C))
             [])"

section \<open>Host batched realization\<close>

text \<open>The loop nest \<^verbatim>\<open>for j in [0, nt) for i in [j+1, mt)\<close>, keeping the local tiles.\<close>

definition strictly_lower_local :: "'x Matrix_scheme \<Rightarrow> (int \<times> int) list" where
  "strictly_lower_local C =
     [(i, j). j \<leftarrow> [0..nt C - 1], i \<leftarrow> [j + 1..mt C - 1], tileIsLocal C i j]"

text \<open>Loading the off-diagonal tiles on the calling thread (source lines 263--273).\<close>

definition batch_preload :: "(int \<times> int) list \<Rightarrow> 'a call list" where
  "batch_preload ts =
     concat (map (\<lambda>(i, j). [tileGetForReading MatA i 0,
                             tileGetForReading MatB j 0,
                             tileGetForWriting MatC i j]) ts)"

text \<open>
  The operator handed to the batched product for its first operand (source lines
  276--287 and 466--477); the inner \<^verbatim>\<open>else\<close> throws.
\<close>

definition batch_opA :: "Op \<Rightarrow> Op \<Rightarrow> bool \<Rightarrow> exn + Op" where
  "batch_opA A_op C_op C_is_real =
     (if C_op \<noteq> NoTrans then
        (if A_op = NoTrans then Inr C_op
         else if A_op = C_op \<or> C_is_real then Inr NoTrans
         else Inl std_exception)
      else Inr A_op)"

definition batch_opB :: "Op \<Rightarrow> Op" where
  "batch_opB opA = (if opA = NoTrans then Trans else NoTrans)"

text \<open>
  The extents of the batched products are kept in \<^verbatim>\<open>std::vector<int>\<close> (lines 297--299):
  storing the \<^verbatim>\<open>int64_t\<close> results of \<^verbatim>\<open>mb()\<close> and \<^verbatim>\<open>nb()\<close> there (lines 318--320) narrows
  them to 32 bits, two's complement.
\<close>

definition to_int32 :: "int \<Rightarrow> int" where
  "to_int32 x = (x + 2 ^ 31) mod 2 ^ 32 - 2 ^ 31"

text \<open>
  The three assertions on the tile shapes inside the assembly loop (lines 322--324):
  each compares an \<^verbatim>\<open>int64_t\<close> extent of a tile of A with the narrowed entry just stored.
  They are plain \<^verbatim>\<open>assert\<close>s.  The run below is that of a build which keeps assertions;
  a build with \<^verbatim>\<open>NDEBUG\<close> differs from it only where an assertion is violated, and the
  statements below about a run that gets past these assertions have them as a
  hypothesis.
\<close>

definition batch_shapes_ok ::
  "'y Matrix_scheme \<Rightarrow> 'x Matrix_scheme \<Rightarrow> (int \<times> int) list \<Rightarrow> bool" where
  "batch_shapes_ok A C ts =
     list_all (\<lambda>(i, j). tileMb A i = to_int32 (tileMb C i)
                         \<and> tileMb A j = to_int32 (tileNb C j)
                         \<and> tileNb A 0 = to_int32 (tileNb A 0)) ts"

text \<open>
  The two calls of \<^verbatim>\<open>cblas_gemm_batch\<close> (lines 357--377), after the swap of lines
  343--351 when \<open>op C \<noteq> NoTrans\<close>.
\<close>

definition host_batch_gemms ::
  "'a::one \<Rightarrow> 'a \<Rightarrow> 'y Matrix_scheme \<Rightarrow> 'x Matrix_scheme \<Rightarrow> Op \<Rightarrow> (int \<times> int) list
     \<Rightarrow> 'a call list" where
  "host_batch_gemms alpha beta A C opA ts =
     (let batch_count = int (length ts);
          opB = batch_opB opA;
          opA_array = replicate (length ts) opA;
          opB_array = replicate (length ts) opB;
          m_array = map (\<lambda>(i, j). to_int32 (tileMb C i)) ts;
          n_array = map (\<lambda>(i, j). to_int32 (tileNb C j)) ts;
          k_array = map (\<lambda>(i, j). to_int32 (tileNb A 0)) ts;
          alpha_array = replicate (length ts) alpha;
          beta_array = replicate (length ts) beta;
          ai_array = map (\<lambda>(i, j). (MatA, i, 0)) ts;
          aj_array = map (\<lambda>(i, j). (MatA, j, 0)) ts;
          bi_array = map (\<lambda>(i, j). (MatB, i, 0)) ts;
          bj_array = map (\<lambda>(i, j). (MatB, j, 0)) ts;
          c_array = map (\<lambda>(i, j). (MatC, i, j)) ts;
          sw = (op C \<noteq> NoTrans);
          opA_array' = (if sw then opB_array else opA_array);
          opB_array' = (if sw then opA_array else opB_array);
          ai_array' = (if sw then bj_array else ai_array);
          bj_array' = (if sw then ai_array else bj_array);
          aj_array' = (if sw then bi_array else aj_array);
          bi_array' = (if sw then aj_array else bi_array);
          m_array' = (if sw then n_array else m_array);
          n_array' = (if sw then m_array else n_array)
      in [cblas_gemm_batch opA_array' opB_array' m_array' n_array' k_array
            alpha_array ai_array' bj_array' beta_array c_array batch_count,
          cblas_gemm_batch opA_array' opB_array' m_array' n_array' k_array
            alpha_array bi_array' aj_array' (replicate (length ts) 1) c_array batch_count])"

text \<open>The closing loop of ticks (lines 385--395).\<close>

definition batch_ticks :: "(int \<times> int) list \<Rightarrow> 'a call list" where
  "batch_ticks ts =
     concat (map (\<lambda>(i, j). [tileTick MatA i 0, tileTick MatA j 0,
                             tileTick MatB i 0, tileTick MatB j 0]) ts)"

text \<open>
  The whole realization.  \<open>with_mkl\<close> is the build's \<^verbatim>\<open>SLATE_WITH_MKL\<close>.  An exception
  on the calling thread leaves the function at once, before the \<^verbatim>\<open>taskwait\<close>.
\<close>

definition syr2k_HostBatch ::
  "bool \<Rightarrow> ('a::one call \<Rightarrow> bool) \<Rightarrow> 'a \<Rightarrow> 'y Matrix_scheme \<Rightarrow> 'a
     \<Rightarrow> 'x SymmetricMatrix_scheme \<Rightarrow> Layout \<Rightarrow> 'a run" where
  "syr2k_HostBatch with_mkl throws alpha A beta C layout =
     (if layout \<noteq> ColMajor
      then \<lparr>units = [], main_calls = [], joined = False, result = AssertionFailed\<rparr>
      else
        let us = map (\<lambda>j. task_try throws 254 (diag_body alpha beta j)) (diag_local C);
            ts = strictly_lower_local C
        in (case exec_calls throws (batch_preload ts) of
              (tr1, True) \<Rightarrow>
                \<lparr>units = us, main_calls = tr1, joined = False, result = Raised std_exception\<rparr>
            | (tr1, False) \<Rightarrow>
                if \<not> int (length ts) > 0 then taskwait_and_rethrow us tr1
                else (case batch_opA (op A) (op C) (is_real C) of
                        Inl e \<Rightarrow>
                          \<lparr>units = us, main_calls = tr1, joined = False, result = Raised e\<rparr>
                      | Inr opA \<Rightarrow>
                          if \<not> batch_shapes_ok A C ts then
                            \<lparr>units = us, main_calls = tr1, joined = False,
                             result = AssertionFailed\<rparr>
                          else if \<not> with_mkl then
                            \<lparr>units = us, main_calls = tr1, joined = False,
                             result = Raised NotImplementedException\<rparr>
                          else (case exec_calls throws
                                       (host_batch_gemms alpha beta A C opA ts @ batch_ticks ts) of
                                  (tr2, True) \<Rightarrow>
                                    \<lparr>units = us, main_calls = tr1 @ tr2, joined = False,
                                     result = Raised std_exception\<rparr>
                                | (tr2, False) \<Rightarrow> taskwait_and_rethrow us (tr1 @ tr2)))))"

section \<open>Device-resident realization\<close>

text \<open>Body of the task of the single-tile case (lines 429--454); it has no handler.\<close>

definition single_tile_calls ::
  "'a \<Rightarrow> 'y Matrix_scheme \<Rightarrow> 'a \<Rightarrow> 'x SymmetricMatrix_scheme \<Rightarrow> int \<Rightarrow> Layout
     \<Rightarrow> 'a call list" where
  "single_tile_calls alpha A beta C queue_index layout =
     (let device = tileDevice C 0 0 in
      [tileGetForReading_dev MatA 0 0 device,
       tileGetForReading_dev MatB 0 0 device,
       tileGetForWriting_dev MatC 0 0 device,
       blas_syr2k layout (uploPhysical C) (op A) (tileNb C 0) (tileNb A 0)
         alpha (MatA, 0, 0) (MatB, 0, 0) beta (MatC, 0, 0),
       queue_sync device queue_index,
       tileRelease MatA 0 0 device,
       tileRelease MatB 0 0 device,
       tileTick MatA 0 0,
       tileTick MatA 0 0,
       tileTick MatB 0 0,
       tileTick MatB 0 0])"

definition single_tile_body ::
  "'a \<Rightarrow> 'y Matrix_scheme \<Rightarrow> 'a \<Rightarrow> 'x SymmetricMatrix_scheme \<Rightarrow> int \<Rightarrow> Layout
     \<Rightarrow> 'a stmt list" where
  "single_tile_body alpha A beta C queue_index layout =
     map Do (single_tile_calls alpha A beta C queue_index layout)"

text \<open>The tiles of the lower triangle that are local and live on \<open>device\<close>.\<close>

definition on_device :: "'x Matrix_scheme \<Rightarrow> int \<Rightarrow> int \<Rightarrow> int \<Rightarrow> bool" where
  "on_device C device i j \<longleftrightarrow> tileIsLocal C i j \<and> device = tileDevice C i j"

definition device_lower :: "'x Matrix_scheme \<Rightarrow> int \<Rightarrow> (int \<times> int) list" where
  "device_lower C device =
     [(i, j). j \<leftarrow> [0..nt C - 1], i \<leftarrow> [j..mt C - 1], on_device C device i j]"

text \<open>The two groups of off-diagonal tiles (lines 534--548 and 564--578).\<close>

definition gemm00_tiles :: "'x Matrix_scheme \<Rightarrow> int \<Rightarrow> (int \<times> int) list" where
  "gemm00_tiles C device =
     [(i, j). j \<leftarrow> [0..nt C - 1 - 1], i \<leftarrow> [j + 1..mt C - 1 - 1], on_device C device i j]"

definition gemm10_tiles :: "'x Matrix_scheme \<Rightarrow> int \<Rightarrow> (int \<times> int) list" where
  "gemm10_tiles C device =
     [(mt C - 1, j). j \<leftarrow> [0..nt C - 1 - 1], on_device C device (mt C - 1) j]"

text \<open>The two groups of diagonal tiles (lines 749--760 and 774--787).\<close>

definition syr2k_0_tiles :: "'x Matrix_scheme \<Rightarrow> int \<Rightarrow> int list" where
  "syr2k_0_tiles C device = [j. j \<leftarrow> [0..nt C - 1 - 1], on_device C device j j]"

definition syr2k_1_tiles :: "'x Matrix_scheme \<Rightarrow> int \<Rightarrow> int list" where
  "syr2k_1_tiles C device =
     (if on_device C device (mt C - 1) (nt C - 1) then [nt C - 1] else [])"

text \<open>
  The sets of tiles fetched for the products and for the rank-2k calls (lines
  481--501); \<^verbatim>\<open>std::set\<close> keeps each coordinate once.
\<close>

definition A_tiles_gemm :: "'x Matrix_scheme \<Rightarrow> int \<Rightarrow> (int \<times> int) set" where
  "A_tiles_gemm C device =
     set (concat (map (\<lambda>(i, j). if i = j then [] else [(i, 0), (j, 0)]) (device_lower C device)))"

definition B_tiles_gemm :: "'x Matrix_scheme \<Rightarrow> int \<Rightarrow> (int \<times> int) set" where
  "B_tiles_gemm C device =
     set (concat (map (\<lambda>(i, j). if i = j then [] else [(i, 0), (j, 0)]) (device_lower C device)))"

definition C_tiles_gemm :: "'x Matrix_scheme \<Rightarrow> int \<Rightarrow> (int \<times> int) set" where
  "C_tiles_gemm C device =
     set (concat (map (\<lambda>(i, j). if i = j then [] else [(i, j)]) (device_lower C device)))"

definition A_tiles_syr2k :: "'x Matrix_scheme \<Rightarrow> int \<Rightarrow> (int \<times> int) set" where
  "A_tiles_syr2k C device =
     set (concat (map (\<lambda>(i, j). if i = j then [(j, 0)] else []) (device_lower C device)))"

definition B_tiles_syr2k :: "'x Matrix_scheme \<Rightarrow> int \<Rightarrow> (int \<times> int) set" where
  "B_tiles_syr2k C device =
     set (concat (map (\<lambda>(i, j). if i = j then [(j, 0)] else []) (device_lower C device)))"

definition C_tiles_syr2k :: "'x Matrix_scheme \<Rightarrow> int \<Rightarrow> (int \<times> int) set" where
  "C_tiles_syr2k C device =
     set (concat (map (\<lambda>(i, j). if i = j then [(i, j)] else []) (device_lower C device)))"

text \<open>
  The batched products of one orientation for the two groups (lines 603--631 and
  688--716): a group whose array of C tiles is empty issues no call.  The arguments
  are those after the swap of lines 580--589 (and 673--682).
\<close>

definition device_gemm_calls ::
  "Layout \<Rightarrow> Op \<Rightarrow> Op \<Rightarrow> int \<Rightarrow> int \<Rightarrow> int \<Rightarrow> int \<Rightarrow> int \<Rightarrow> 'a \<Rightarrow> 'a
     \<Rightarrow> tile_id list \<Rightarrow> tile_id list \<Rightarrow> tile_id list
     \<Rightarrow> tile_id list \<Rightarrow> tile_id list \<Rightarrow> tile_id list \<Rightarrow> 'a stmt list" where
  "device_gemm_calls layout opA opB mb00 nb00 mb10 nb10 kb alpha beta
       a00 b00 c00 a10 b10 c10 =
     (if int (length c00) > 0
      then [Do (blas_batch_gemm layout opA opB mb00 nb00 kb alpha a00 b00 beta c00
                  (int (length c00)))]
      else [])
     @ (if int (length c10) > 0
        then [Do (blas_batch_gemm layout opA opB mb10 nb10 kb alpha a10 b10 beta c10
                    (int (length c10)))]
        else [])"

text \<open>The batched rank-2k calls for the two groups of diagonal tiles (lines 794--820).\<close>

definition device_syr2k_calls ::
  "Layout \<Rightarrow> Uplo \<Rightarrow> Op \<Rightarrow> int \<Rightarrow> int \<Rightarrow> int \<Rightarrow> 'a \<Rightarrow> 'a
     \<Rightarrow> int list \<Rightarrow> int list \<Rightarrow> 'a stmt list" where
  "device_syr2k_calls layout ul opA nb0 nb1 kb alpha beta d0 d1 =
     (if int (length d0) > 0
      then [Do (blas_batch_syr2k layout ul opA nb0 kb alpha
                  (map (\<lambda>j. (MatA, j, 0)) d0) (map (\<lambda>j. (MatB, j, 0)) d0) beta
                  (map (\<lambda>j. (MatC, j, j)) d0) (int (length d0)))]
      else [])
     @ (if int (length d1) > 0
        then [Do (blas_batch_syr2k layout ul opA nb1 kb alpha
                    (map (\<lambda>j. (MatA, j, 0)) d1) (map (\<lambda>j. (MatB, j, 0)) d1) beta
                    (map (\<lambda>j. (MatC, j, j)) d1) (int (length d1)))]
        else [])"

text \<open>The closing loop of releases and ticks (lines 825--843).\<close>

definition device_release_ticks :: "(int \<times> int) list \<Rightarrow> int \<Rightarrow> 'a call list" where
  "device_release_ticks ts device =
     concat (map (\<lambda>(i, j). [tileRelease MatA i 0 device,
                             tileRelease MatA j 0 device,
                             tileRelease MatB i 0 device,
                             tileRelease MatB j 0 device,
                             tileTick MatA i 0,
                             tileTick MatA j 0,
                             tileTick MatB i 0,
                             tileTick MatB j 0]) ts)"

text \<open>
  Body of the task of one device in the general case (lines 464--843).  The three
  fetches before the products and the three before the rank-2k calls are nested
  tasks.
\<close>

definition device_body ::
  "'a::one \<Rightarrow> 'y Matrix_scheme \<Rightarrow> 'a \<Rightarrow> 'x SymmetricMatrix_scheme \<Rightarrow> int \<Rightarrow> Layout \<Rightarrow> int
     \<Rightarrow> 'a stmt list" where
  "device_body alpha A beta C queue_index layout device =
     (case batch_opA (op A) (op C) (is_real C) of
        Inl e \<Rightarrow> [Throw e]
      | Inr opA0 \<Rightarrow>
          (let opB0 = batch_opB opA0;
               sw = (op C \<noteq> NoTrans);
               opA = (if sw then opB0 else opA0);
               opB = (if sw then opA0 else opB0);
               t00 = gemm00_tiles C device;
               t10 = gemm10_tiles C device;
               mb00 = (if sw then tileNb C 0 else tileMb C 0);
               nb00 = (if sw then tileMb C 0 else tileNb C 0);
               mb10 = (if sw then tileNb C 0 else tileMb C (mt C - 1));
               nb10 = (if sw then tileMb C (mt C - 1) else tileNb C 0);
               kb = tileNb A 0;
               c00 = map (\<lambda>(i, j). (MatC, i, j)) t00;
               c10 = map (\<lambda>(i, j). (MatC, i, j)) t10;
               ai00 = map (\<lambda>(i, j). (MatA, i, 0)) t00;
               bj00 = map (\<lambda>(i, j). (MatB, j, 0)) t00;
               ai10 = map (\<lambda>(i, j). (MatA, i, 0)) t10;
               bj10 = map (\<lambda>(i, j). (MatB, j, 0)) t10;
               aj00 = map (\<lambda>(i, j). (MatA, j, 0)) t00;
               bi00 = map (\<lambda>(i, j). (MatB, i, 0)) t00;
               aj10 = map (\<lambda>(i, j). (MatA, j, 0)) t10;
               bi10 = map (\<lambda>(i, j). (MatB, i, 0)) t10
           in [ChildTask [tileGetForReading_set MatA (A_tiles_gemm C device) device],
               ChildTask [tileGetForReading_set MatB (B_tiles_gemm C device) device],
               ChildTask [tileGetForWriting_set MatC (C_tiles_gemm C device) device]]
              @ device_gemm_calls layout opA opB mb00 nb00 mb10 nb10 kb alpha beta
                  (if sw then bj00 else ai00) (if sw then ai00 else bj00) c00
                  (if sw then bj10 else ai10) (if sw then ai10 else bj10) c10
              @ device_gemm_calls layout opA opB mb00 nb00 mb10 nb10 kb alpha 1
                  (if sw then aj00 else bi00) (if sw then bi00 else aj00) c00
                  (if sw then aj10 else bi10) (if sw then bi10 else aj10) c10
              @ [ChildTask [tileGetForReading_set MatA (A_tiles_syr2k C device) device],
                 ChildTask [tileGetForReading_set MatB (B_tiles_syr2k C device) device],
                 ChildTask [tileGetForWriting_set MatC (C_tiles_syr2k C device) device]]
              @ device_syr2k_calls layout (uploPhysical C) opA (tileNb C 0)
                  (tileNb C (nt C - 1)) kb alpha beta
                  (syr2k_0_tiles C device) (syr2k_1_tiles C device)
              @ [Do (queue_sync device queue_index)]
              @ map Do (device_release_ticks (device_lower C device) device)))"

text \<open>The whole realization (lines 420--855).\<close>

definition syr2k_Devices ::
  "('a::one call \<Rightarrow> bool) \<Rightarrow> 'a \<Rightarrow> 'y Matrix_scheme \<Rightarrow> 'a \<Rightarrow> 'x SymmetricMatrix_scheme
     \<Rightarrow> int \<Rightarrow> Layout \<Rightarrow> 'a run" where
  "syr2k_Devices throws alpha A beta C queue_index layout =
     (if \<not> num_devices C > 0
      then \<lparr>units = [], main_calls = [], joined = False, result = AssertionFailed\<rparr>
      else if nt C = 1 then
        (if tileIsLocal C 0 0
         then taskwait_and_rethrow
                [task_plain throws (single_tile_body alpha A beta C queue_index layout)] []
         else taskwait_and_rethrow [] [])
      else taskwait_and_rethrow
             (map (\<lambda>device. task_try throws 846 (device_body alpha A beta C queue_index layout device))
                  [0..num_devices C - 1])
             [])"

section \<open>The dispatcher\<close>

text \<open>
  \<^verbatim>\<open>syr2k<target>(alpha, A, B, beta, C, priority, queue_index, layout)\<close> (lines
  30--49).  The check throws before anything else happens; otherwise the overload
  for the target runs.  \<open>with_mkl\<close> and \<open>throws\<close> are as above.
\<close>

definition syr2k ::
  "bool \<Rightarrow> ('a::one call \<Rightarrow> bool) \<Rightarrow> Target \<Rightarrow> 'a \<Rightarrow> 'y Matrix_scheme \<Rightarrow> 'z Matrix_scheme
     \<Rightarrow> 'a \<Rightarrow> 'x SymmetricMatrix_scheme \<Rightarrow> int \<Rightarrow> int \<Rightarrow> Layout \<Rightarrow> 'a run" where
  "syr2k with_mkl throws target alpha A B beta C priority queue_index layout =
     (if \<not> (uplo C = Lower
             \<and> (is_real C \<or> (op C \<noteq> ConjTrans \<and> op A \<noteq> ConjTrans))
             \<and> op A = op B)
      then \<lparr>units = [], main_calls = [], joined = False, result = Raised std_exception\<rparr>
      else (case target of
              HostTask \<Rightarrow> syr2k_HostTask throws alpha beta C layout
            | HostNest \<Rightarrow> syr2k_HostNest throws alpha beta C layout
            | HostBatch \<Rightarrow> syr2k_HostBatch with_mkl throws alpha A beta C layout
            | Devices \<Rightarrow> syr2k_Devices throws alpha A beta C queue_index layout))"

section \<open>Device reduction kernels\<close>

text \<open>
  \<^verbatim>\<open>src/hip/device_henorm.hip.cc\<close>.  A tile is the memory behind its pointer: entry
  \<open>(i, j)\<close> of the tile sits at offset \<open>i + j * lda\<close>.  The arithmetic is the
  idealized one: \<^verbatim>\<open>real_t\<close> is \<open>real\<close>, \<^verbatim>\<open>scalar_t\<close> is \<open>complex\<close> (a real
  instantiation is the case of zero imaginary parts), \<^verbatim>\<open>abs\<close> is the modulus and
  \<^verbatim>\<open>real\<close> the real part.  Sizes and counts are documented non-negative
  (\<^verbatim>\<open>n >= 0\<close>, \<^verbatim>\<open>batch_count >= 0\<close>) and are natural numbers here.
\<close>

type_synonym tile_mem = "nat \<Rightarrow> complex"

text \<open>
  The helpers of \<^verbatim>\<open>device_util.hip.hh\<close> are not among the files at hand, and neither
  is the content of the dynamic shared memory when a kernel starts.  The kernels take
  them as parameters.
\<close>

record device_env =
  max_nan :: "real \<Rightarrow> real \<Rightarrow> real"
  max_nan_reduce :: "nat \<Rightarrow> (nat \<Rightarrow> real) \<Rightarrow> (nat \<Rightarrow> real)"
  add_sumsq :: "real \<times> real \<Rightarrow> real \<Rightarrow> real \<times> real"
  combine_sumsq :: "real \<times> real \<Rightarrow> real \<times> real \<Rightarrow> real \<times> real"
  dynamic_data :: "nat \<Rightarrow> real"

text \<open>
  The rows a thread visits: \<^verbatim>\<open>for (int i = threadIdx.x; i < n; i += blockDim.x)\<close>.
  A block has at least one thread; with \<open>blockDim = 0\<close> (which no launch has) the
  list is empty.
\<close>

function thread_rows :: "nat \<Rightarrow> nat \<Rightarrow> nat \<Rightarrow> nat list" where
  "thread_rows i n blockDim =
     (if i < n \<and> 0 < blockDim then i # thread_rows (i + blockDim) n blockDim else [])"
  by pat_completeness auto
termination
  by (relation "measure (\<lambda>(i, n, blockDim). n - i)") auto

declare thread_rows.simps [simp del]

text \<open>
  The columns of row \<open>i\<close> that are read besides the diagonal: for the lower triangle
  \<^verbatim>\<open>for (j = 0; j < i && j < n; ++j)\<close>, otherwise \<^verbatim>\<open>for (j = n-1; j > i; --j)\<close>.
\<close>

definition row_cols :: "Uplo \<Rightarrow> nat \<Rightarrow> nat \<Rightarrow> nat list" where
  "row_cols ul n i = (if ul = Lower then [0..<min i n] else rev [i + 1..<n])"

subsection \<open>Max-abs\<close>

text \<open>The maximum of one row (lines 69--82).\<close>

definition max_row :: "device_env \<Rightarrow> Uplo \<Rightarrow> nat \<Rightarrow> tile_mem \<Rightarrow> nat \<Rightarrow> nat \<Rightarrow> real" where
  "max_row env ul n tm lda i =
     max_nan env
       (fold (\<lambda>j m. max_nan env m (cmod (tm (i + j * lda)))) (row_cols ul n i) 0)
       \<bar>Re (tm (i + i * lda))\<bar>"

text \<open>One pass of the loop body of a thread (lines 62--83), on the shared array.\<close>

definition max_step ::
  "device_env \<Rightarrow> Uplo \<Rightarrow> nat \<Rightarrow> tile_mem \<Rightarrow> nat \<Rightarrow> nat \<Rightarrow> nat \<Rightarrow> (nat \<Rightarrow> real) \<Rightarrow> (nat \<Rightarrow> real)" where
  "max_step env ul n tm lda blockDim i row_max =
     (let chunk = i mod blockDim;
          row_max1 = (if i < blockDim then row_max(chunk := 0) else row_max)
      in row_max1(chunk := max_nan env (max_row env ul n tm lda i) (row_max1 chunk)))"

text \<open>
  One thread: it clears its entry of the shared array (lines 55--57), then runs its
  loop.
\<close>

definition max_thread ::
  "device_env \<Rightarrow> Uplo \<Rightarrow> nat \<Rightarrow> tile_mem \<Rightarrow> nat \<Rightarrow> nat \<Rightarrow> nat \<Rightarrow> (nat \<Rightarrow> real) \<Rightarrow> (nat \<Rightarrow> real)" where
  "max_thread env ul n tm lda blockDim threadIdx row_max =
     fold (max_step env ul n tm lda blockDim) (thread_rows threadIdx n blockDim)
       (if threadIdx < blockDim then row_max(threadIdx := 0) else row_max)"

text \<open>
  One block.  Thread \<open>t\<close> writes the entry \<open>t\<close> of the shared array and no other, so
  the threads are run one after the other.  After the barrier the reduction leaves
  the result in entry 0.
\<close>

definition max_block :: "device_env \<Rightarrow> Uplo \<Rightarrow> nat \<Rightarrow> tile_mem \<Rightarrow> nat \<Rightarrow> nat \<Rightarrow> real" where
  "max_block env ul n tm lda blockDim =
     max_nan_reduce env blockDim
       (fold (max_thread env ul n tm lda blockDim) [0..<blockDim] (dynamic_data env)) 0"

definition henorm_max_kernel ::
  "device_env \<Rightarrow> nat \<Rightarrow> nat \<Rightarrow> Uplo \<Rightarrow> nat \<Rightarrow> (nat \<Rightarrow> tile_mem) \<Rightarrow> nat \<Rightarrow> (nat \<Rightarrow> real)
     \<Rightarrow> (nat \<Rightarrow> real)" where
  "henorm_max_kernel env gridDim blockDim ul n Aarray lda tiles_maxima =
     fold (\<lambda>blockIdx out. out(blockIdx := max_block env ul n (Aarray blockIdx) lda blockDim))
       [0..<gridDim] tiles_maxima"

subsection \<open>One-norm\<close>

text \<open>The sum for index \<open>k\<close> (lines 133--153): row part, diagonal, column part.\<close>

definition one_sum :: "Uplo \<Rightarrow> nat \<Rightarrow> tile_mem \<Rightarrow> nat \<Rightarrow> nat \<Rightarrow> real" where
  "one_sum ul n tm lda k =
     (if ul = Lower
      then fold (\<lambda>i s. s + cmod (tm (lda * k + i))) [k + 1..<n]
             (fold (\<lambda>j s. s + cmod (tm (k + j * lda))) [0..<k] 0 + \<bar>Re (tm (k + k * lda))\<bar>)
      else fold (\<lambda>i s. s + cmod (tm (lda * k + i))) [0..<min k n]
             (fold (\<lambda>j s. s + cmod (tm (k + j * lda))) (rev [k + 1..<n]) 0
                + \<bar>Re (tm (k + k * lda))\<bar>))"

definition one_thread ::
  "Uplo \<Rightarrow> nat \<Rightarrow> tile_mem \<Rightarrow> nat \<Rightarrow> nat \<Rightarrow> nat \<Rightarrow> nat \<Rightarrow> nat \<Rightarrow> (nat \<Rightarrow> real) \<Rightarrow> (nat \<Rightarrow> real)" where
  "one_thread ul n tm lda ldv blockDim blockIdx threadIdx tiles_sums =
     fold (\<lambda>k out. out(blockIdx * ldv + k := one_sum ul n tm lda k))
       (thread_rows threadIdx n blockDim) tiles_sums"

definition henorm_one_kernel ::
  "nat \<Rightarrow> nat \<Rightarrow> Uplo \<Rightarrow> nat \<Rightarrow> (nat \<Rightarrow> tile_mem) \<Rightarrow> nat \<Rightarrow> (nat \<Rightarrow> real) \<Rightarrow> nat
     \<Rightarrow> (nat \<Rightarrow> real)" where
  "henorm_one_kernel gridDim blockDim ul n Aarray lda tiles_sums ldv =
     fold (\<lambda>blockIdx out.
             fold (one_thread ul n (Aarray blockIdx) lda ldv blockDim blockIdx) [0..<blockDim] out)
       [0..<gridDim] tiles_sums"

subsection \<open>Frobenius\<close>

text \<open>The scaled sum of squares of one row (lines 203--224).\<close>

definition fro_row :: "device_env \<Rightarrow> Uplo \<Rightarrow> nat \<Rightarrow> tile_mem \<Rightarrow> nat \<Rightarrow> nat \<Rightarrow> real \<times> real" where
  "fro_row env ul n tm lda i =
     (case fold (\<lambda>j acc. add_sumsq env acc (cmod (tm (i + j * lda)))) (row_cols ul n i) (0, 1) of
        (scale, sumsq) \<Rightarrow> add_sumsq env (scale, sumsq * 2) \<bar>Re (tm (i + i * lda))\<bar>)"

text \<open>
  One pass of the loop body of a thread (lines 203--231) on the two shared arrays,
  kept as one array of pairs \<open>(row_scale[c], row_sumsq[c])\<close>.
\<close>

definition fro_step ::
  "device_env \<Rightarrow> Uplo \<Rightarrow> nat \<Rightarrow> tile_mem \<Rightarrow> nat \<Rightarrow> nat \<Rightarrow> nat \<Rightarrow> (nat \<Rightarrow> real \<times> real)
     \<Rightarrow> (nat \<Rightarrow> real \<times> real)" where
  "fro_step env ul n tm lda blockDim i sh =
     (let chunk = i mod blockDim;
          sh1 = (if i < blockDim then sh(chunk := (0, 1)) else sh)
      in sh1(chunk := combine_sumsq env (sh1 chunk) (fro_row env ul n tm lda i)))"

definition fro_thread ::
  "device_env \<Rightarrow> Uplo \<Rightarrow> nat \<Rightarrow> tile_mem \<Rightarrow> nat \<Rightarrow> nat \<Rightarrow> nat \<Rightarrow> (nat \<Rightarrow> real \<times> real)
     \<Rightarrow> (nat \<Rightarrow> real \<times> real)" where
  "fro_thread env ul n tm lda blockDim threadIdx sh =
     fold (fro_step env ul n tm lda blockDim) (thread_rows threadIdx n blockDim) sh"

text \<open>
  One block: the threads, then the sequential reduction of thread 0 (lines 236--245),
  \<^verbatim>\<open>for (chunk = 1; chunk < blockDim.x && chunk < n; ++chunk)\<close>.  The shared arrays
  start with whatever the dynamic shared memory holds: \<^verbatim>\<open>row_scale\<close> at offset 0 and
  \<^verbatim>\<open>row_sumsq\<close> at offset \<open>blockDim\<close>.
\<close>

definition fro_block ::
  "device_env \<Rightarrow> Uplo \<Rightarrow> nat \<Rightarrow> tile_mem \<Rightarrow> nat \<Rightarrow> nat \<Rightarrow> real \<times> real" where
  "fro_block env ul n tm lda blockDim =
     (let sh = fold (fro_thread env ul n tm lda blockDim) [0..<blockDim]
                 (\<lambda>c. (dynamic_data env c, dynamic_data env (blockDim + c)))
      in fold (\<lambda>chunk acc. combine_sumsq env acc (sh chunk)) [1..<min blockDim n] (sh 0))"

definition henorm_fro_kernel ::
  "device_env \<Rightarrow> nat \<Rightarrow> nat \<Rightarrow> Uplo \<Rightarrow> nat \<Rightarrow> (nat \<Rightarrow> tile_mem) \<Rightarrow> nat \<Rightarrow> (nat \<Rightarrow> real)
     \<Rightarrow> (nat \<Rightarrow> real)" where
  "henorm_fro_kernel env gridDim blockDim ul n Aarray lda tiles_values =
     fold (\<lambda>blockIdx out.
             out(blockIdx * 2 + 0 := fst (fro_block env ul n (Aarray blockIdx) lda blockDim),
                 blockIdx * 2 + 1 := snd (fro_block env ul n (Aarray blockIdx) lda blockDim)))
       [0..<gridDim] tiles_values"

subsection \<open>The batched entry point\<close>

text \<open>\<^verbatim>\<open>lapack::Norm\<close>; the suffix keeps the names apart from the library's \<open>Max\<close> and \<open>Inf\<close>.\<close>

datatype Norm = One_norm | Two_norm | Inf_norm | Fro_norm | Max_norm

datatype kernel_id = max_kernel | one_kernel | fro_kernel

text \<open>
  One \<^verbatim>\<open>hipLaunchKernelGGL\<close>: the kernel, the grid and block sizes, the dynamic shared
  memory in units of \<^verbatim>\<open>sizeof(real_t)\<close>, and the kernel's arguments (\<open>ldv\<close> only for the
  one-norm kernel).
\<close>

datatype launch =
  hipLaunchKernelGGL kernel_id nat nat nat Uplo nat "nat \<Rightarrow> tile_mem" nat "nat option"

datatype henorm_status = Done | AssertFailed | DeviceError

record henorm_run =
  launches :: "launch list"
  memsets :: "nat list"
  values_out :: "nat \<Rightarrow> real"
  status :: henorm_status

text \<open>\<^verbatim>\<open>blas::device_memset(values, 0, nelements, queue)\<close>: the first \<open>nelements\<close> entries become 0.\<close>

definition device_memset :: "(nat \<Rightarrow> real) \<Rightarrow> nat \<Rightarrow> (nat \<Rightarrow> real)" where
  "device_memset vals nelements = (\<lambda>idx. if idx < nelements then 0 else vals idx)"

text \<open>The end of \<^verbatim>\<open>henorm\<close> (lines 348--349); \<open>hip_ok\<close> is \<^verbatim>\<open>hipGetLastError() == hipSuccess\<close>.\<close>

definition finish :: "bool \<Rightarrow> launch list \<Rightarrow> nat list \<Rightarrow> (nat \<Rightarrow> real) \<Rightarrow> henorm_run" where
  "finish hip_ok ls ms vals =
     \<lparr>launches = ls, memsets = ms, values_out = vals,
      status = (if hip_ok then Done else DeviceError)\<rparr>"

text \<open>
  \<^verbatim>\<open>henorm\<close> (lines 295--350).  Sizes are \<^verbatim>\<open>int64_t\<close> documented as not negative; they are
  naturals here.  The three \<^verbatim>\<open>assert\<close>s on the output stride (lines 319, 331, 342) are
  plain assertions of the documented stride: the run below is that of a build which
  keeps them, where a violated assertion ends the call before the launch.  A build with
  \<^verbatim>\<open>NDEBUG\<close> differs only at a stride that violates its assertion, and the statements
  of this file that describe a launch are made at a stride that satisfies it.
\<close>

definition henorm ::
  "device_env \<Rightarrow> bool \<Rightarrow> Norm \<Rightarrow> Uplo \<Rightarrow> nat \<Rightarrow> (nat \<Rightarrow> tile_mem) \<Rightarrow> nat \<Rightarrow> (nat \<Rightarrow> real)
     \<Rightarrow> nat \<Rightarrow> nat \<Rightarrow> henorm_run" where
  "henorm env hip_ok nrm ul n Aarray lda vals ldv batch_count =
     (let nb = 512 in
      if batch_count = 0
      then \<lparr>launches = [], memsets = [], values_out = vals, status = Done\<rparr>
      else if nrm = Max_norm then
        (if n = 0 then finish hip_ok [] [batch_count] (device_memset vals batch_count)
         else if ldv \<noteq> 1
         then \<lparr>launches = [], memsets = [], values_out = vals, status = AssertFailed\<rparr>
         else finish hip_ok
                [hipLaunchKernelGGL max_kernel batch_count nb nb ul n Aarray lda None] []
                (henorm_max_kernel env batch_count nb ul n Aarray lda vals))
      else if nrm = One_norm \<or> nrm = Inf_norm then
        (if n = 0 then finish hip_ok [] [batch_count * n] (device_memset vals (batch_count * n))
         else if \<not> ldv \<ge> n
         then \<lparr>launches = [], memsets = [], values_out = vals, status = AssertFailed\<rparr>
         else finish hip_ok
                [hipLaunchKernelGGL one_kernel batch_count nb 0 ul n Aarray lda (Some ldv)] []
                (henorm_one_kernel batch_count nb ul n Aarray lda vals ldv))
      else if nrm = Fro_norm then
        (if n = 0 then finish hip_ok [] [batch_count * 2] (device_memset vals (batch_count * 2))
         else if ldv \<noteq> 2
         then \<lparr>launches = [], memsets = [], values_out = vals, status = AssertFailed\<rparr>
         else finish hip_ok
                [hipLaunchKernelGGL fro_kernel batch_count nb (nb * 2) ul n Aarray lda None] []
                (henorm_fro_kernel env batch_count nb ul n Aarray lda vals))
      else finish hip_ok [] [] vals)"

section \<open>Notions used to state the properties\<close>

subsection \<open>Input tiles and ticks of a unit\<close>

fun operand_tile :: "operand \<Rightarrow> tile_id" where
  "operand_tile (tile t) = t"
| "operand_tile (transpose t) = t"

text \<open>The input tiles (of A and B) that a kernel call reads.\<close>

fun call_inputs :: "'a call \<Rightarrow> tile_id list" where
  "call_inputs (syr2k_tile alpha X Y beta Z) = [X, Y]"
| "call_inputs (gemm_tile alpha X Y beta Z) = [operand_tile X, operand_tile Y]"
| "call_inputs (cblas_gemm_batch oa ob ms ns ks als a b bes c cnt) = a @ b"
| "call_inputs (blas_syr2k l ul oa n k alpha X Y beta Z) = [X, Y]"
| "call_inputs (blas_batch_gemm l oa ob m n k alpha a b beta c cnt) = a @ b"
| "call_inputs (blas_batch_syr2k l ul oa n k alpha a b beta c cnt) = a @ b"
| "call_inputs _ = []"

definition inputs_read :: "'a unit_result \<Rightarrow> tile_id set" where
  "inputs_read u = set (concat (map call_inputs (completed_calls u)))"

text \<open>All the calls of a body, nested tasks included: what a body that ends normally has done.\<close>

fun body_calls :: "'a stmt list \<Rightarrow> 'a call list" where
  "body_calls [] = []"
| "body_calls (Do c # ss) = c # body_calls ss"
| "body_calls (Throw e # ss) = body_calls ss"
| "body_calls (ChildTask cs # ss) = cs @ body_calls ss"

text \<open>How often a unit decremented the life of a tile.\<close>

definition tick_count :: "'a unit_result \<Rightarrow> tile_id \<Rightarrow> nat" where
  "tick_count u t = (case t of (m, i, j) \<Rightarrow> count_list (completed_calls u) (tileTick m i j))"

subsection \<open>What the kernel calls compute\<close>

text \<open>
  The arithmetic behind the calls is not in the file at hand.  A tile is taken here as
  the matrix that its array holds, entry \<open>(r, s)\<close> in row \<open>r\<close> and column \<open>s\<close> of the stored
  array, read through the layout of its last fetch, which is the layout the realization
  hands to the kernel.  Strides and memory spaces are left out: a fetch, a release, a
  tick and a queue synchronisation change no value.  Scalars are the elements of a
  commutative ring; the parameter \<open>cj\<close> stands for the conjugation of the scalar type,
  which is the identity when the type is real.
\<close>

type_synonym 'a tile_data = "nat \<Rightarrow> nat \<Rightarrow> 'a"


text \<open>
  The view of an array under an operator of \<^verbatim>\<open>slate/types.hh\<close>.
\<close>

definition apply_op :: "('a \<Rightarrow> 'a) \<Rightarrow> Op \<Rightarrow> 'a tile_data \<Rightarrow> 'a tile_data" where
  "apply_op cj oper d =
     (case oper of NoTrans \<Rightarrow> d | Trans \<Rightarrow> (\<lambda>r s. d s r) | ConjTrans \<Rightarrow> (\<lambda>r s. cj (d s r)))"

text \<open>
  The routines gemm and syr2k of the BLAS, which stand behind \<^verbatim>\<open>blas::syr2k\<close>,
  \<^verbatim>\<open>blas::batch::gemm\<close>, \<^verbatim>\<open>blas::batch::syr2k\<close> and \<^verbatim>\<open>cblas_gemm_batch\<close>, all of libraries
  outside this repository.  With the extents \<open>m\<close>, \<open>n\<close>, \<open>k\<close>, gemm replaces the leading
  \<open>m\<close> by \<open>n\<close> part of the array C by \<open>alpha op(A) op(B) + beta C\<close>; syr2k replaces the part
  of the leading \<open>n\<close> by \<open>n\<close> part of C that lies in the named triangle by
  \<open>alpha op(A) op(B)\<^sup>T + alpha op(B) op(A)\<^sup>T + beta C\<close>, where \<open>op(A)\<close> and \<open>op(B)\<close> are \<open>n\<close> by
  \<open>k\<close>.  Every other entry of C stays.
\<close>

definition in_triangle :: "Uplo \<Rightarrow> nat \<Rightarrow> nat \<Rightarrow> bool" where
  "in_triangle ul r s = (case ul of Lower \<Rightarrow> s \<le> r | Upper \<Rightarrow> r \<le> s)"

type_synonym 'a kernel = "'a tile_data \<Rightarrow> 'a tile_data \<Rightarrow> 'a tile_data \<Rightarrow> 'a tile_data"

definition gemm_kernel ::
  "('a::comm_ring_1 \<Rightarrow> 'a) \<Rightarrow> Op \<Rightarrow> Op \<Rightarrow> nat \<Rightarrow> nat \<Rightarrow> nat \<Rightarrow> 'a \<Rightarrow> 'a \<Rightarrow> 'a kernel" where
  "gemm_kernel cj opA opB m n k alpha beta a b c =
     (\<lambda>r s. if r < m \<and> s < n
            then alpha * (\<Sum>l<k. apply_op cj opA a r l * apply_op cj opB b l s) + beta * c r s
            else c r s)"

definition syr2k_kernel ::
  "('a::comm_ring_1 \<Rightarrow> 'a) \<Rightarrow> Uplo \<Rightarrow> Op \<Rightarrow> nat \<Rightarrow> nat \<Rightarrow> 'a \<Rightarrow> 'a \<Rightarrow> 'a kernel" where
  "syr2k_kernel cj ul opT n k alpha beta a b c =
     (\<lambda>r s. if r < n \<and> s < n \<and> in_triangle ul r s
            then alpha * (\<Sum>l<k. apply_op cj opT a r l * apply_op cj opT b s l)
               + alpha * (\<Sum>l<k. apply_op cj opT b r l * apply_op cj opT a s l)
               + beta * c r s
            else c r s)"

text \<open>
  What the arithmetic needs to know of the three matrices: the operator and the tile
  extents of each, and the logical triangle of C.
\<close>

record geometry =
  op_of :: "matrix_id \<Rightarrow> Op"
  mb_of :: "matrix_id \<Rightarrow> int \<Rightarrow> int"
  nb_of :: "matrix_id \<Rightarrow> int \<Rightarrow> int"
  uplo_C :: Uplo


text \<open>
  Modelled from the spec: the single-tile kernels \<^verbatim>\<open>gemm(alpha, A, B, beta, C)\<close> and
  \<^verbatim>\<open>syr2k(alpha, A, B, beta, C)\<close> of \<^verbatim>\<open>slate/Tile_blas.hh\<close> and \<^verbatim>\<open>transpose\<close> of the tile class,
  which are not among the files at hand.  The spec takes them as "thin arithmetic
  kernels for a single tile (elementary GEMM/SYR2K/norm math), which are assumed correct
  and are invoked as black boxes", and has a tile's transpose tag compose "with the
  logical operator applied to its owning matrix".  So the kernels compute on the logical
  tiles, which are the stored arrays seen through the operator of their matrix: gemm
  sets the logical tile C to \<open>alpha A B + beta C\<close>, on the extents of C and with the column
  count of A as the inner extent; syr2k sets the part of the logical tile C in the
  logical triangle of the matrix to \<open>alpha A B\<^sup>T + alpha B A\<^sup>T + beta C\<close>.
\<close>

fun operand_view :: "('a \<Rightarrow> 'a) \<Rightarrow> geometry \<Rightarrow> operand \<Rightarrow> 'a tile_data \<Rightarrow> 'a tile_data" where
  "operand_view cj g (tile t) d = apply_op cj (op_of g (fst t)) d"
| "operand_view cj g (transpose t) d = (\<lambda>r s. apply_op cj (op_of g (fst t)) d s r)"

fun operand_nb :: "geometry \<Rightarrow> operand \<Rightarrow> int" where
  "operand_nb g (tile (m, i, j)) = nb_of g m j"
| "operand_nb g (transpose (m, i, j)) = mb_of g m i"

definition tile_gemm ::
  "('a::comm_ring_1 \<Rightarrow> 'a) \<Rightarrow> geometry \<Rightarrow> 'a \<Rightarrow> operand \<Rightarrow> operand \<Rightarrow> 'a \<Rightarrow> tile_id \<Rightarrow> 'a kernel" where
  "tile_gemm cj g alpha X Y beta Z a b c =
     (case Z of (m, i, j) \<Rightarrow>
        apply_op cj (op_of g m)
          (\<lambda>r s. if r < nat (mb_of g m i) \<and> s < nat (nb_of g m j)
                 then alpha * (\<Sum>l<nat (operand_nb g X).
                                 operand_view cj g X a r l * operand_view cj g Y b l s)
                      + beta * apply_op cj (op_of g m) c r s
                 else apply_op cj (op_of g m) c r s))"

definition tile_syr2k ::
  "('a::comm_ring_1 \<Rightarrow> 'a) \<Rightarrow> geometry \<Rightarrow> 'a \<Rightarrow> tile_id \<Rightarrow> tile_id \<Rightarrow> 'a \<Rightarrow> tile_id \<Rightarrow> 'a kernel" where
  "tile_syr2k cj g alpha X Y beta Z a b c =
     (case Z of (m, i, j) \<Rightarrow>
        apply_op cj (op_of g m)
          (\<lambda>r s. if r < nat (nb_of g m j) \<and> s < nat (nb_of g m j) \<and> in_triangle (uplo_C g) r s
                 then alpha * (\<Sum>l<nat (operand_nb g (tile X)).
                                 operand_view cj g (tile X) a r l * operand_view cj g (tile Y) b s l)
                    + alpha * (\<Sum>l<nat (operand_nb g (tile X)).
                                 operand_view cj g (tile Y) b r l * operand_view cj g (tile X) a s l)
                    + beta * apply_op cj (op_of g m) c r s
                 else apply_op cj (op_of g m) c r s))"

text \<open>
  A call as the list of its updates.  An update reads two tiles and rewrites a third
  with a kernel.  A batched call makes one update for each entry of its pointer arrays,
  up to its batch count; the calls on the tile registry and the queue make none.
\<close>

type_synonym 'a update = "tile_id \<times> tile_id \<times> tile_id \<times> 'a kernel"


fun call_updates :: "('a::comm_ring_1 \<Rightarrow> 'a) \<Rightarrow> geometry \<Rightarrow> 'a call \<Rightarrow> 'a update list" where
  "call_updates cj g (syr2k_tile alpha X Y beta Z) =
     [(X, Y, Z, tile_syr2k cj g alpha X Y beta Z)]"
| "call_updates cj g (gemm_tile alpha X Y beta Z) =
     [(operand_tile X, operand_tile Y, Z, tile_gemm cj g alpha X Y beta Z)]"
| "call_updates cj g (cblas_gemm_batch opAs opBs ms ns ks alphas a_array b_array betas c_array cnt) =
     map (\<lambda>p. (a_array ! p, b_array ! p, c_array ! p,
                gemm_kernel cj (opAs ! p) (opBs ! p) (nat (ms ! p)) (nat (ns ! p)) (nat (ks ! p))
                  (alphas ! p) (betas ! p)))
       [0..<nat cnt]"
| "call_updates cj g (blas_syr2k l ul opT n k alpha X Y beta Z) =
     [(X, Y, Z, syr2k_kernel cj ul opT (nat n) (nat k) alpha beta)]"
| "call_updates cj g (blas_batch_gemm l opA opB m n k alpha a_array b_array beta c_array cnt) =
     map (\<lambda>p. (a_array ! p, b_array ! p, c_array ! p,
                gemm_kernel cj opA opB (nat m) (nat n) (nat k) alpha beta))
       [0..<nat cnt]"
| "call_updates cj g (blas_batch_syr2k l ul opT n k alpha a_array b_array beta c_array cnt) =
     map (\<lambda>p. (a_array ! p, b_array ! p, c_array ! p,
                syr2k_kernel cj ul opT (nat n) (nat k) alpha beta))
       [0..<nat cnt]"
| "call_updates cj g _ = []"


subsection \<open>The groups of the batched device calls of a body\<close>

fun gemm_c_arrays :: "'a stmt list \<Rightarrow> tile_id list list" where
  "gemm_c_arrays [] = []"
| "gemm_c_arrays (Do (blas_batch_gemm l oa ob m n k alpha a b beta c cnt) # ss) =
     c # gemm_c_arrays ss"
| "gemm_c_arrays (s # ss) = gemm_c_arrays ss"

fun syr2k_c_arrays :: "'a stmt list \<Rightarrow> tile_id list list" where
  "syr2k_c_arrays [] = []"
| "syr2k_c_arrays (Do (blas_batch_syr2k l ul oa n k alpha a b beta c cnt) # ss) =
     c # syr2k_c_arrays ss"
| "syr2k_c_arrays (s # ss) = syr2k_c_arrays ss"

subsection \<open>Scaled sums of squares\<close>

text \<open>
  A pair \<open>(scale, sumsq)\<close> represents the value \<open>v\<close> when the scale is not negative
  and \<open>scale\<^sup>2 * sumsq = v\<close>.
\<close>

definition represents :: "real \<times> real \<Rightarrow> real \<Rightarrow> bool" where
  "represents p v \<longleftrightarrow> 0 \<le> fst p \<and> (fst p)\<^sup>2 * snd p = v"

text \<open>
  What the two helpers of \<^verbatim>\<open>device_util.hip.hh\<close> are documented to do: adding a
  value, \<open>scale\<^sup>2 sumsq := scale\<^sup>2 sumsq + absx\<^sup>2\<close>, and combining two pairs,
  \<open>scale1\<^sup>2 sumsq1 := scale1\<^sup>2 sumsq1 + scale2\<^sup>2 sumsq2\<close>.
\<close>

definition add_sumsq_ok :: "device_env \<Rightarrow> bool" where
  "add_sumsq_ok env \<longleftrightarrow>
     (\<forall>s q x. 0 \<le> s \<longrightarrow> 0 \<le> x \<longrightarrow> represents (add_sumsq env (s, q) x) (s\<^sup>2 * q + x\<^sup>2))"

definition combine_sumsq_ok :: "device_env \<Rightarrow> bool" where
  "combine_sumsq_ok env \<longleftrightarrow>
     (\<forall>s1 q1 s2 q2. 0 \<le> s1 \<longrightarrow> 0 \<le> s2 \<longrightarrow>
        represents (combine_sumsq env (s1, q1) (s2, q2)) (s1\<^sup>2 * q1 + s2\<^sup>2 * q2))"

text \<open>
  The reference value of the claim about the Frobenius variant: the squared moduli of
  the entries of the declared strict triangle, counted twice, plus the squared real
  parts of the diagonal entries, counted once.  The columns of the declared strict
  triangle in row \<open>i\<close> are those left of the diagonal for the lower triangle and
  those right of it otherwise.
\<close>

definition strict_cols :: "Uplo \<Rightarrow> nat \<Rightarrow> nat \<Rightarrow> nat set" where
  "strict_cols ul n i = (if ul = Lower then {j. j < i} else {j. i < j \<and> j < n})"

definition row_reference :: "Uplo \<Rightarrow> nat \<Rightarrow> tile_mem \<Rightarrow> nat \<Rightarrow> nat \<Rightarrow> real" where
  "row_reference ul n tm lda i =
     2 * (\<Sum>j \<in> strict_cols ul n i. (cmod (tm (i + j * lda)))\<^sup>2) + (Re (tm (i + i * lda)))\<^sup>2"

definition fro_reference :: "Uplo \<Rightarrow> nat \<Rightarrow> tile_mem \<Rightarrow> nat \<Rightarrow> real" where
  "fro_reference ul n tm lda =
     2 * (\<Sum>i<n. \<Sum>j \<in> strict_cols ul n i. (cmod (tm (i + j * lda)))\<^sup>2)
     + (\<Sum>i<n. (Re (tm (i + i * lda)))\<^sup>2)"

text \<open>
  Two tiles agree on what is declared when they hold the same entries in the declared
  strict triangle and the same real parts on the diagonal; they may differ anywhere
  else, in particular in the whole other triangle.
\<close>

definition agree_declared :: "Uplo \<Rightarrow> nat \<Rightarrow> nat \<Rightarrow> tile_mem \<Rightarrow> tile_mem \<Rightarrow> bool" where
  "agree_declared ul n lda tm tm' \<longleftrightarrow>
     (\<forall>i<n. (\<forall>j \<in> strict_cols ul n i. tm (i + j * lda) = tm' (i + j * lda))
            \<and> Re (tm (i + i * lda)) = Re (tm' (i + i * lda)))"

text \<open>
  Modelled from the spec: the helpers \<^verbatim>\<open>max_nan\<close>, \<^verbatim>\<open>max_nan_reduce\<close>, \<^verbatim>\<open>add_sumsq\<close> and
  \<^verbatim>\<open>combine_sumsq\<close> of \<^verbatim>\<open>device_util.hip.hh\<close>, which is not among the files at hand, over
  the idealized reals (where no NaN exists): the maximum; the reduction that leaves the
  maximum of the first \<open>n\<close> entries in entry 0; and the scale-rebasing rule, "combining
  two pairs rescales the one with smaller scale before adding".  The dynamic shared
  memory starts as zeros.  This environment serves the concrete instances below; the
  general statements hold for every environment.
\<close>

definition ideal_env :: device_env where
  "ideal_env =
     \<lparr>max_nan = max,
      max_nan_reduce = (\<lambda>n x. x(0 := fold (\<lambda>i m. max m (x i)) [1..<n] (x 0))),
      add_sumsq = (\<lambda>(scale, sumsq) absx.
         if scale < absx then (absx, 1 + sumsq * (scale / absx)\<^sup>2)
         else if scale \<noteq> 0 then (scale, sumsq + (absx / scale)\<^sup>2)
         else (scale, sumsq)),
      combine_sumsq = (\<lambda>(scale1, sumsq1) (scale2, sumsq2).
         if scale1 > scale2 then (scale1, sumsq1 + sumsq2 * (scale2 / scale1)\<^sup>2)
         else if scale2 \<noteq> 0 then (scale2, sumsq1 * (scale1 / scale2)\<^sup>2 + sumsq2)
         else (scale1, sumsq1)),
      dynamic_data = (\<lambda>c. 0)\<rparr>"

subsection \<open>Schedules of a run and the memory they leave\<close>






subsection \<open>The reference of the rank-2k update\<close>






subsection \<open>The updates of one tile\<close>

text \<open>
  The updates of a list of calls, the tile an update rewrites, and the updates that
  rewrite a given tile.  Inputs are only read when no update reads a tile of C other
  than its own target and every target is a tile of C.  One step of a tile: the kernel
  of an update applied to the tile, its two inputs taken from a fixed memory.
\<close>

definition updates_of :: "('a::comm_ring_1 \<Rightarrow> 'a) \<Rightarrow> geometry \<Rightarrow> 'a call list \<Rightarrow> 'a update list" where
  "updates_of cj g cs = concat (map (call_updates cj g) cs)"

definition target_of :: "'a update \<Rightarrow> tile_id" where
  "target_of u = fst (snd (snd u))"

definition inputs_only :: "'a update list \<Rightarrow> bool" where
  "inputs_only us \<longleftrightarrow>
     (\<forall>u \<in> set us. fst (fst u) \<noteq> MatC \<and> fst (fst (snd u)) \<noteq> MatC \<and> fst (target_of u) = MatC)"


definition tile_updates :: "('a::comm_ring_1 \<Rightarrow> 'a) \<Rightarrow> geometry \<Rightarrow> tile_id \<Rightarrow> 'a call list \<Rightarrow> 'a update list" where
  "tile_updates cj g t cs = filter (\<lambda>u. target_of u = t) (updates_of cj g cs)"

text \<open>
  The update of the tile \<open>(i, j)\<close> by a batched product, with the operators, extents and
  operands as the host-batched and device-resident realizations pass them after their
  swap (\<open>sw\<close>), for the first product and for the second; and the update of a diagonal
  tile by a batched rank-2k call.
\<close>

definition gemm_update ::
  "('a::comm_ring_1 \<Rightarrow> 'a) \<Rightarrow> Op \<Rightarrow> bool \<Rightarrow> (int \<Rightarrow> int) \<Rightarrow> (int \<Rightarrow> int) \<Rightarrow> int \<Rightarrow> 'a \<Rightarrow> 'a \<Rightarrow> bool
     \<Rightarrow> int \<times> int \<Rightarrow> 'a update" where
  "gemm_update cj opA0 sw mbf nbf kb alpha beta second =
     (\<lambda>(i, j).
        ((if second then (if sw then (MatA, j, 0) else (MatB, i, 0))
          else (if sw then (MatB, j, 0) else (MatA, i, 0))),
         (if second then (if sw then (MatB, i, 0) else (MatA, j, 0))
          else (if sw then (MatA, i, 0) else (MatB, j, 0))),
         (MatC, i, j),
         gemm_kernel cj (if sw then batch_opB opA0 else opA0) (if sw then opA0 else batch_opB opA0)
           (nat (if sw then nbf j else mbf i)) (nat (if sw then mbf i else nbf j)) (nat kb)
           alpha beta))"

definition syr2k_update ::
  "('a::comm_ring_1 \<Rightarrow> 'a) \<Rightarrow> Uplo \<Rightarrow> Op \<Rightarrow> int \<Rightarrow> int \<Rightarrow> 'a \<Rightarrow> 'a \<Rightarrow> int \<Rightarrow> 'a update" where
  "syr2k_update cj ul opT nb kb alpha beta =
     (\<lambda>j. ((MatA, j, 0), (MatB, j, 0), (MatC, j, j),
            syr2k_kernel cj ul opT (nat nb) (nat kb) alpha beta))"


subsection \<open>Small inputs\<close>

definition example_A :: Matrix where
  "example_A = \<lparr>mt = 2, nt = 1, op = NoTrans, tileIsLocal = (\<lambda>i j. True),
     tileDevice = (\<lambda>i j. 0), tileMb = (\<lambda>i. 4), tileNb = (\<lambda>j. 4), num_devices = 1\<rparr>"

definition example_C1 :: SymmetricMatrix where
  "example_C1 = \<lparr>mt = 1, nt = 1, op = NoTrans, tileIsLocal = (\<lambda>i j. True),
     tileDevice = (\<lambda>i j. 0), tileMb = (\<lambda>i. 4), tileNb = (\<lambda>j. 4), num_devices = 1,
     uploPhysical = Lower, is_real = True\<rparr>"

definition example_C2 :: SymmetricMatrix where
  "example_C2 = \<lparr>mt = 2, nt = 2, op = NoTrans, tileIsLocal = (\<lambda>i j. True),
     tileDevice = (\<lambda>i j. 0), tileMb = (\<lambda>i. 4), tileNb = (\<lambda>j. 4), num_devices = 1,
     uploPhysical = Lower, is_real = True\<rparr>"

text \<open>
  A 2 by 2 tile with leading dimension 2: the entries \<open>3\<close> and \<open>12\<close> on the diagonal,
  \<open>4\<close> below it and \<open>100\<close> above it.
\<close>

definition example_tile :: tile_mem where
  "example_tile = (\<lambda>k. if k = 0 then 3 else if k = 1 then 4 else if k = 2 then 100 else 12)"


section \<open>Properties of the rank-2k update\<close>

subsection \<open>Running bodies\<close>

lemma exec_calls_no_throw: "exec_calls throws cs = (tr, False) \<Longrightarrow> tr = cs"
  by (induction cs arbitrary: tr) (auto split: prod.splits if_splits)

lemma exec_calls_never: "exec_calls (\<lambda>c. False) cs = (cs, False)"
  by (induction cs) auto

lemma exec_body_map_Do_not_Esc: "snd (exec_body throws (map Do cs)) \<noteq> Esc"
  by (induction cs) (auto split: prod.splits)

lemma exec_body_map_Do_Ok: "exec_body throws (map Do cs) = (tr, Ok) \<Longrightarrow> tr = cs"
  by (induction cs arbitrary: tr) (auto split: prod.splits if_splits)

lemma exec_body_never_Do: "exec_body (\<lambda>c. False) (map Do cs) = (cs, Ok)"
  by (induction cs) auto

lemma exec_body_Ok: "exec_body throws ss = (tr, Ok) \<Longrightarrow> tr = body_calls ss"
proof (induction ss arbitrary: tr)
  case Nil
  then show ?case by simp
next
  case (Cons s ss)
  show ?case
  proof (cases s)
    case (Do c)
    with Cons show ?thesis by (auto split: prod.splits if_splits)
  next
    case (Throw e)
    with Cons show ?thesis by simp
  next
    case (ChildTask cs)
    with Cons show ?thesis
      by (auto split: prod.splits bool.splits dest: exec_calls_no_throw)
  qed
qed

lemma exec_body_never:
  "(\<And>e. Throw e \<notin> set ss) \<Longrightarrow> exec_body (\<lambda>c. False) ss = (body_calls ss, Ok)"
  by (induction ss rule: body_calls.induct) (auto simp: exec_calls_never)

lemma body_calls_map_Do [simp]: "body_calls (map Do cs) = cs"
  by (induction cs) auto

lemma body_calls_append [simp]: "body_calls (ss @ ts) = body_calls ss @ body_calls ts"
  by (induction ss rule: body_calls.induct) auto

lemma task_try_map_Do_not_Escaped: "outcome (task_try throws l (map Do cs)) \<noteq> Escaped"
  using exec_body_map_Do_not_Esc [of throws cs]
  by (auto simp: task_try_def split: prod.splits status.splits)

lemma task_try_map_Do_Completed:
  "outcome (task_try throws l (map Do cs)) = Completed \<Longrightarrow>
     completed_calls (task_try throws l (map Do cs)) = cs"
  using exec_body_map_Do_Ok [of throws cs]
  by (auto simp: task_try_def split: prod.splits status.splits)

lemma task_try_Completed:
  "outcome (task_try throws l ss) = Completed \<Longrightarrow>
     completed_calls (task_try throws l ss) = body_calls ss"
  using exec_body_Ok [of throws ss]
  by (auto simp: task_try_def split: prod.splits status.splits)

lemma task_plain_Completed:
  "outcome (task_plain throws ss) = Completed \<Longrightarrow>
     completed_calls (task_plain throws ss) = body_calls ss"
  using exec_body_Ok [of throws ss]
  by (auto simp: task_plain_def split: prod.splits status.splits)

subsection \<open>The small inputs, evaluated\<close>

lemma upto_small:
  "[0..(0::int)] = [0]" "[0..(1::int)] = [0, 1]" "[1..(1::int)] = [1]"
  "[1..(0::int)] = []" "[2..(1::int)] = []"
  by (simp_all add: upto.simps)

lemma lower_local_example_C2: "lower_local example_C2 = [(0, 0), (1, 0), (1, 1)]"
  by (simp add: lower_local_def example_C2_def upto_small)

lemma device_lower_example_C2: "device_lower example_C2 0 = [(0, 0), (1, 0), (1, 1)]"
  by (simp add: device_lower_def on_device_def example_C2_def upto_small)

lemma strictly_lower_local_example_C2: "strictly_lower_local example_C2 = [(1, 0)]"
  by (simp add: strictly_lower_local_def example_C2_def upto_small)

lemma diag_local_example_C2: "diag_local example_C2 = [0, 1]"
  by (simp add: diag_local_def example_C2_def upto_small)

lemma gemm00_example_C2: "gemm00_tiles example_C2 0 = []"
  by (simp add: gemm00_tiles_def example_C2_def upto_small)

lemma gemm10_example_C2: "gemm10_tiles example_C2 0 = [(1, 0)]"
  by (simp add: gemm10_tiles_def on_device_def example_C2_def upto_small)

lemma syr2k_0_example_C2: "syr2k_0_tiles example_C2 0 = [0]"
  by (simp add: syr2k_0_tiles_def on_device_def example_C2_def upto_small)

lemma syr2k_1_example_C2: "syr2k_1_tiles example_C2 0 = [1]"
  by (simp add: syr2k_1_tiles_def on_device_def example_C2_def)

subsection \<open>The precondition check of the dispatcher\<close>

text \<open>
  C2.  The dispatcher throws at once, with no unit spawned and no call made, exactly
  when the logical triangle of C is not the lower one, or the operators of A and B
  differ, or the element type is complex and the operator of A, of B or of C is the
  conjugate transpose; in every other case it is the realization chosen by the target.
  (The source tests only A and C for \<open>ConjTrans\<close>; B is covered because its operator
  must equal that of A.)
\<close>

theorem syr2k_dispatch:
  "syr2k with_mkl throws target alpha A B beta C priority queue_index layout =
     (if uplo C \<noteq> Lower \<or> op A \<noteq> op B
         \<or> (\<not> is_real C \<and> (op A = ConjTrans \<or> op B = ConjTrans \<or> op C = ConjTrans))
      then \<lparr>units = [], main_calls = [], joined = False, result = Raised std_exception\<rparr>
      else (case target of
              HostTask \<Rightarrow> syr2k_HostTask throws alpha beta C layout
            | HostNest \<Rightarrow> syr2k_HostNest throws alpha beta C layout
            | HostBatch \<Rightarrow> syr2k_HostBatch with_mkl throws alpha A beta C layout
            | Devices \<Rightarrow> syr2k_Devices throws alpha A beta C queue_index layout))"
  unfolding syr2k_def by auto

text \<open>An instance: operators of A and B that differ are refused before any task exists.\<close>

theorem syr2k_dispatch_witness:
  "syr2k True (\<lambda>c. False) HostTask (1::real) example_A (example_A\<lparr>op := Trans\<rparr>) 1 example_C2 0 0
     ColMajor =
   \<lparr>units = [], main_calls = [], joined = False, result = Raised std_exception\<rparr>"
  using syr2k_dispatch [of True "\<lambda>c. False" HostTask "1::real" example_A
      "example_A\<lparr>op := Trans\<rparr>" 1 example_C2 0 0 ColMajor]
  by (simp add: example_A_def)

text \<open>The check implies that the operator computation of the batched paths does not throw.\<close>

lemma precondition_opA:
  "is_real C \<or> (op C \<noteq> ConjTrans \<and> op A \<noteq> ConjTrans) \<Longrightarrow>
     \<exists>opA0. batch_opA (op A) (op C) (is_real C) = Inr opA0"
  by (cases "op A"; cases "op C") (auto simp: batch_opA_def)

subsection \<open>Error aggregation\<close>

lemma HostTask_units_not_Escaped:
  "u \<in> set (units (syr2k_HostTask throws alpha beta C layout)) \<Longrightarrow> outcome u \<noteq> Escaped"
  by (auto simp: syr2k_HostTask_def taskwait_and_rethrow_def diag_body_def offdiag_body_def
      task_try_map_Do_not_Escaped split: if_splits)

lemma HostNest_units_not_Escaped:
  "u \<in> set (units (syr2k_HostNest throws alpha beta C layout)) \<Longrightarrow> outcome u \<noteq> Escaped"
  by (auto simp: syr2k_HostNest_def taskwait_and_rethrow_def diag_body_def nest_offdiag_body_def
      task_try_map_Do_not_Escaped split: if_splits)

lemma HostBatch_units:
  "units (syr2k_HostBatch with_mkl throws alpha A beta C layout) =
     (if layout \<noteq> ColMajor then []
      else map (\<lambda>j. task_try throws 254 (diag_body alpha beta j)) (diag_local C))"
  by (auto simp: syr2k_HostBatch_def taskwait_and_rethrow_def Let_def
      split: prod.splits bool.splits sum.splits)

lemma HostBatch_units_not_Escaped:
  "u \<in> set (units (syr2k_HostBatch with_mkl throws alpha A beta C layout)) \<Longrightarrow>
     outcome u \<noteq> Escaped"
  by (auto simp: HostBatch_units diag_body_def task_try_map_Do_not_Escaped split: if_splits)

lemma HostTask_result:
  "layout = ColMajor \<Longrightarrow>
   joined (syr2k_HostTask throws alpha beta C layout) \<and>
   result (syr2k_HostTask throws alpha beta C layout) =
     (if err_set (units (syr2k_HostTask throws alpha beta C layout))
      then Raised std_exception else Returned)"
  using HostTask_units_not_Escaped [of _ throws alpha beta C layout]
  by (auto simp: syr2k_HostTask_def taskwait_and_rethrow_def escaped_def)

lemma HostNest_result:
  "layout = ColMajor \<Longrightarrow>
   joined (syr2k_HostNest throws alpha beta C layout) \<and>
   result (syr2k_HostNest throws alpha beta C layout) =
     (if err_set (units (syr2k_HostNest throws alpha beta C layout))
      then Raised std_exception else Returned)"
  using HostNest_units_not_Escaped [of _ throws alpha beta C layout]
  by (auto simp: syr2k_HostNest_def taskwait_and_rethrow_def escaped_def)

lemma HostBatch_result:
  "joined (syr2k_HostBatch with_mkl throws alpha A beta C layout) \<Longrightarrow>
   result (syr2k_HostBatch with_mkl throws alpha A beta C layout) =
     (if err_set (units (syr2k_HostBatch with_mkl throws alpha A beta C layout))
      then Raised std_exception else Returned)"
  using HostBatch_units_not_Escaped [of _ with_mkl throws alpha A beta C layout]
  apply (simp add: HostBatch_units)
  apply (auto simp: syr2k_HostBatch_def taskwait_and_rethrow_def escaped_def Let_def
      split: prod.splits bool.splits sum.splits if_splits)
  done

text \<open>
  C3, as stated, fails.  In the host-batched realization the calling thread fetches
  the off-diagonal tiles itself, outside any unit and outside any handler (lines
  263--273).  On a 2 by 2 grid of local tiles, when fetching \<^verbatim>\<open>C(1, 0)\<close> for writing
  throws, the call throws before its \<^verbatim>\<open>taskwait\<close> although both units (the two
  diagonal tasks) ran to their end and none recorded an error.
\<close>

theorem HostBatch_throws_before_join:
  "result (syr2k True (\<lambda>c. c = tileGetForWriting MatC 1 0) HostBatch (1::real) example_A example_A 1
             example_C2 0 0 ColMajor) = Raised std_exception
   \<and> \<not> joined (syr2k True (\<lambda>c. c = tileGetForWriting MatC 1 0) HostBatch (1::real) example_A
                  example_A 1 example_C2 0 0 ColMajor)
   \<and> map outcome (units (syr2k True (\<lambda>c. c = tileGetForWriting MatC 1 0) HostBatch (1::real)
                  example_A example_A 1 example_C2 0 0 ColMajor)) = [Completed, Completed]"
  by (simp add: syr2k_def uplo_def syr2k_HostBatch_def strictly_lower_local_example_C2
      diag_local_example_C2 batch_preload_def task_try_def diag_body_def diag_calls_def)
     (simp add: example_A_def example_C2_def)

text \<open>
  C3, amended.  In the three host realizations no exception leaves a unit: a unit
  either runs to its end or its own handler records the error.  The task-parallel
  and the nested-parallel realization always reach their \<^verbatim>\<open>taskwait\<close> (the layout
  being column-major, as asserted) and then throw exactly when some unit recorded an
  error.  The batched realization does the same whenever it reaches its
  \<^verbatim>\<open>taskwait\<close>; it can also throw earlier, from the calling thread.  The
  device-resident realization is not covered by this statement.
\<close>

theorem host_error_aggregation:
  fixes alpha :: "'a::one"
  shows
  "(\<forall>u \<in> set (units (syr2k_HostTask throws alpha beta C layout)). outcome u \<noteq> Escaped)
   \<and> (\<forall>u \<in> set (units (syr2k_HostNest throws alpha beta C layout)). outcome u \<noteq> Escaped)
   \<and> (\<forall>u \<in> set (units (syr2k_HostBatch with_mkl throws alpha A beta C layout)).
         outcome u \<noteq> Escaped)
   \<and> (layout = ColMajor \<longrightarrow>
         joined (syr2k_HostTask throws alpha beta C layout)
         \<and> result (syr2k_HostTask throws alpha beta C layout) =
             (if err_set (units (syr2k_HostTask throws alpha beta C layout))
              then Raised std_exception else Returned))
   \<and> (layout = ColMajor \<longrightarrow>
         joined (syr2k_HostNest throws alpha beta C layout)
         \<and> result (syr2k_HostNest throws alpha beta C layout) =
             (if err_set (units (syr2k_HostNest throws alpha beta C layout))
              then Raised std_exception else Returned))
   \<and> (joined (syr2k_HostBatch with_mkl throws alpha A beta C layout) \<longrightarrow>
         result (syr2k_HostBatch with_mkl throws alpha A beta C layout) =
           (if err_set (units (syr2k_HostBatch with_mkl throws alpha A beta C layout))
            then Raised std_exception else Returned))"
  using HostTask_units_not_Escaped [of _ throws alpha beta C layout]
    HostNest_units_not_Escaped [of _ throws alpha beta C layout]
    HostBatch_units_not_Escaped [of _ with_mkl throws alpha A beta C layout]
    HostTask_result [of layout throws alpha beta C]
    HostNest_result [of layout throws alpha beta C]
    HostBatch_result [of with_mkl throws alpha A beta C layout]
  by blast

text \<open>
  An instance: in the task-parallel realization the same failing fetch is caught in
  the unit of tile \<open>(1, 0)\<close>, the other units finish, and the call throws after the
  join.
\<close>

theorem host_error_aggregation_witness:
  "joined (syr2k_HostTask (\<lambda>c. c = tileGetForWriting MatC 1 0) (1::real) 1 example_C2 ColMajor)
   \<and> result (syr2k_HostTask (\<lambda>c. c = tileGetForWriting MatC 1 0) (1::real) 1 example_C2 ColMajor)
       = Raised std_exception
   \<and> map outcome (units (syr2k_HostTask (\<lambda>c. c = tileGetForWriting MatC 1 0) (1::real) 1
                           example_C2 ColMajor)) = [Completed, Caught 118, Completed]"
proof -
  have u: "map outcome (units (syr2k_HostTask (\<lambda>c. c = tileGetForWriting MatC 1 0) (1::real) 1
                           example_C2 ColMajor)) = [Completed, Caught 118, Completed]"
    by (simp add: syr2k_HostTask_def taskwait_and_rethrow_def lower_local_example_C2
        task_try_def diag_body_def diag_calls_def offdiag_body_def offdiag_calls_def)
  then have "err_set (units (syr2k_HostTask (\<lambda>c. c = tileGetForWriting MatC 1 0) (1::real) 1
                           example_C2 ColMajor))"
    by (auto simp: err_set_def)
  with u show ?thesis
    using host_error_aggregation [of "\<lambda>c. c = tileGetForWriting MatC 1 0" "1::real" 1 example_C2
        ColMajor True example_A]
    by simp
qed

text \<open>
  The task of the single-tile case of the device-resident realization has no handler
  (lines 427--455), unlike every other task of the file: an exception of its first
  fetch leaves the unit, and the shared error flag stays clear.
\<close>

lemma single_tile_exception_escapes:
  "syr2k True (\<lambda>c. c = tileGetForReading_dev MatA 0 0 0) Devices (1::real) example_A example_A 1
      example_C1 0 0 ColMajor =
   \<lparr>units = [\<lparr>completed_calls = [], outcome = Escaped\<rparr>], main_calls = [], joined = True,
    result = UncaughtInTask\<rparr>"
  by (simp add: syr2k_def uplo_def example_A_def example_C1_def syr2k_Devices_def
      taskwait_and_rethrow_def task_plain_def single_tile_body_def single_tile_calls_def
      escaped_def err_set_def)

subsection \<open>Ticks\<close>

lemma diag_ticks:
  "(case t of (m, r, c) \<Rightarrow> count_list (diag_calls alpha beta j) (tileTick m r c)) =
     (if t \<in> set (concat (map call_inputs (diag_calls alpha beta j))) then 1 else 0)"
  by (cases t) (auto simp: diag_calls_def)

lemma offdiag_ticks:
  "i \<noteq> j \<Longrightarrow>
   (case t of (m, r, c) \<Rightarrow> count_list (offdiag_calls alpha beta i j) (tileTick m r c)) =
     (if t \<in> set (concat (map call_inputs (offdiag_calls alpha beta i j))) then 1 else 0)"
  by (cases t) (auto simp: offdiag_calls_def)

lemma nest_offdiag_ticks:
  "i \<noteq> j \<Longrightarrow>
   (case t of (m, r, c) \<Rightarrow> count_list (nest_offdiag_calls alpha beta i j) (tileTick m r c)) =
     (if t \<in> set (concat (map call_inputs (nest_offdiag_calls alpha beta i j))) then 1 else 0)"
  by (cases t) (auto simp: nest_offdiag_calls_def)

lemma HostTask_ticks:
  assumes "u \<in> set (units (syr2k_HostTask throws alpha beta C layout))"
    and "outcome u = Completed"
  shows "tick_count u t = (if t \<in> inputs_read u then 1 else 0)"
proof -
  from assms(1) obtain i j where
    u: "u = (if i = j then task_try throws 90 (diag_body alpha beta j)
             else task_try throws 118 (offdiag_body alpha beta i j))"
    by (auto simp: syr2k_HostTask_def taskwait_and_rethrow_def split: if_splits)
  show ?thesis
  proof (cases "i = j")
    case True
    with u assms(2) have "completed_calls u = diag_calls alpha beta j"
      by (simp add: diag_body_def task_try_map_Do_Completed)
    then show ?thesis
      using diag_ticks [where t = t and alpha = alpha and beta = beta and j = j]
      by (simp add: tick_count_def inputs_read_def)
  next
    case False
    with u assms(2) have "completed_calls u = offdiag_calls alpha beta i j"
      by (simp add: offdiag_body_def task_try_map_Do_Completed)
    then show ?thesis
      using offdiag_ticks [OF False, where t = t and alpha = alpha and beta = beta]
      by (simp add: tick_count_def inputs_read_def)
  qed
qed

lemma HostNest_ticks:
  assumes "u \<in> set (units (syr2k_HostNest throws alpha beta C layout))"
    and "outcome u = Completed"
  shows "tick_count u t = (if t \<in> inputs_read u then 1 else 0)"
proof -
  have strict: "i \<noteq> j" if "(i, j) \<in> set (nest_strictly_lower_local C)" for i j
    using that by (auto simp: nest_strictly_lower_local_def)
  from assms(1) have
    "(\<exists>j. u = task_try throws 169 (diag_body alpha beta j))
     \<or> (\<exists>i j. (i, j) \<in> set (nest_strictly_lower_local C)
            \<and> u = task_try throws 203 (nest_offdiag_body alpha beta i j))"
    by (auto simp: syr2k_HostNest_def taskwait_and_rethrow_def split: if_splits)
  with strict consider
    (diag) j where "u = task_try throws 169 (diag_body alpha beta j)"
  | (off) i j where "i \<noteq> j" "u = task_try throws 203 (nest_offdiag_body alpha beta i j)"
    by blast
  then show ?thesis
  proof cases
    case diag
    with assms(2) have "completed_calls u = diag_calls alpha beta j"
      by (simp add: diag_body_def task_try_map_Do_Completed)
    then show ?thesis
      using diag_ticks [where t = t and alpha = alpha and beta = beta and j = j]
      by (simp add: tick_count_def inputs_read_def)
  next
    case off
    with assms(2) have "completed_calls u = nest_offdiag_calls alpha beta i j"
      by (simp add: nest_offdiag_body_def task_try_map_Do_Completed)
    then show ?thesis
      using nest_offdiag_ticks [OF off(1), where t = t and alpha = alpha and beta = beta]
      by (simp add: tick_count_def inputs_read_def)
  qed
qed

lemma HostBatch_ticks:
  assumes "u \<in> set (units (syr2k_HostBatch with_mkl throws alpha A beta C layout))"
    and "outcome u = Completed"
  shows "tick_count u t = (if t \<in> inputs_read u then 1 else 0)"
proof -
  from assms(1) obtain j where u: "u = task_try throws 254 (diag_body alpha beta j)"
    by (auto simp: HostBatch_units split: if_splits)
  with assms(2) have "completed_calls u = diag_calls alpha beta j"
    by (simp add: diag_body_def task_try_map_Do_Completed)
  then show ?thesis
    using diag_ticks [where t = t and alpha = alpha and beta = beta and j = j]
    by (simp add: tick_count_def inputs_read_def)
qed

lemma count_release_ticks_A:
  "count_list (device_release_ticks ts device) (tileTick MatA r 0) =
     length (filter (\<lambda>(i, j). i = r) ts) + length (filter (\<lambda>(i, j). j = r) ts)"
  by (induction ts) (auto simp: device_release_ticks_def)

lemma count_release_ticks_B:
  "count_list (device_release_ticks ts device) (tileTick MatB r 0) =
     length (filter (\<lambda>(i, j). i = r) ts) + length (filter (\<lambda>(i, j). j = r) ts)"
  by (induction ts) (auto simp: device_release_ticks_def)

lemma count_device_gemm_calls [simp]:
  "count_list (body_calls (device_gemm_calls layout opA opB mb00 nb00 mb10 nb10 kb alpha beta
       a00 b00 c00 a10 b10 c10)) (tileTick m r c) = 0"
  by (simp add: device_gemm_calls_def)

lemma count_device_syr2k_calls [simp]:
  "count_list (body_calls (device_syr2k_calls layout ul opA nb0 nb1 kb alpha beta d0 d1))
     (tileTick m r c) = 0"
  by (simp add: device_syr2k_calls_def)

lemma device_body_ticks:
  fixes alpha :: "'a::one"
  assumes "outcome (task_try throws 846 (device_body alpha A beta C queue_index layout device))
             = Completed"
  shows "tick_count (task_try throws 846 (device_body alpha A beta C queue_index layout device))
           (m, r, 0) =
     (if m = MatC then 0
      else length (filter (\<lambda>(i, j). i = r) (device_lower C device))
           + length (filter (\<lambda>(i, j). j = r) (device_lower C device)))"
proof -
  have ok: "\<exists>opA0. batch_opA (op A) (op C) (is_real C) = Inr opA0"
  proof (cases "batch_opA (op A) (op C) (is_real C)")
    case (Inl e)
    then have "outcome (task_try throws 846 (device_body alpha A beta C queue_index layout device))
                 = Caught 846"
      by (simp add: device_body_def task_try_def)
    with assms show ?thesis by simp
  next
    case (Inr a)
    then show ?thesis by blast
  qed
  then obtain opA0 where opA0: "batch_opA (op A) (op C) (is_real C) = Inr opA0" ..
  have "count_list (body_calls (device_body alpha A beta C queue_index layout device))
          (tileTick m r 0) =
     count_list (device_release_ticks (device_lower C device) device :: 'a call list)
          (tileTick m r 0)"
    by (simp add: device_body_def opA0 Let_def)
  moreover have "count_list (device_release_ticks ts device :: 'a call list) (tileTick MatC r 0) = 0"
    for ts
    by (induction ts) (auto simp: device_release_ticks_def)
  ultimately show ?thesis
    using task_try_Completed [OF assms] count_release_ticks_A [of "device_lower C device" device r]
      count_release_ticks_B [of "device_lower C device" device r]
    by (cases m) (simp_all add: tick_count_def)
qed

text \<open>
  C7, as stated, fails.  In the single-tile case of the device-resident realization
  the unit reads \<^verbatim>\<open>A(0, 0)\<close> and decrements its life twice (lines 451--452).
\<close>

theorem single_tile_ticks_twice:
  "map outcome (units (syr2k True (\<lambda>c. False) Devices (1::real) example_A example_A 1 example_C1 0 0
                          ColMajor)) = [Completed]
   \<and> tick_count (hd (units (syr2k True (\<lambda>c. False) Devices (1::real) example_A example_A 1
                               example_C1 0 0 ColMajor))) (MatA, 0, 0) = 2
   \<and> (MatA, 0, 0) \<in> inputs_read (hd (units (syr2k True (\<lambda>c. False) Devices (1::real) example_A
                               example_A 1 example_C1 0 0 ColMajor)))"
  by (simp add: syr2k_def uplo_def syr2k_Devices_def taskwait_and_rethrow_def task_plain_def
      single_tile_body_def single_tile_calls_def tick_count_def inputs_read_def example_C1_def
      example_A_def)

text \<open>
  C7, amended.  In the three host realizations a unit that ran to its end has
  decremented the life of every input tile its kernel calls read exactly once, and of
  no other tile.  In the device-resident realization the unit of a device that ran to
  its end has decremented \<^verbatim>\<open>A(r, 0)\<close> and \<^verbatim>\<open>B(r, 0)\<close> once for every tile \<open>(i, j)\<close> of C
  it owns with \<open>i = r\<close> and once more for every such tile with \<open>j = r\<close> (so twice for a
  diagonal tile), and the unit of the single-tile case has decremented \<^verbatim>\<open>A(0, 0)\<close> and
  \<^verbatim>\<open>B(0, 0)\<close> twice each.
\<close>

theorem ticks_by_unit:
  fixes alpha :: "'a::one"
  shows
  "(\<forall>u \<in> set (units (syr2k_HostTask throws alpha beta C layout)).
      outcome u = Completed \<longrightarrow> (\<forall>t. tick_count u t = (if t \<in> inputs_read u then 1 else 0)))
   \<and> (\<forall>u \<in> set (units (syr2k_HostNest throws alpha beta C layout)).
      outcome u = Completed \<longrightarrow> (\<forall>t. tick_count u t = (if t \<in> inputs_read u then 1 else 0)))
   \<and> (\<forall>u \<in> set (units (syr2k_HostBatch with_mkl throws alpha A beta C layout)).
      outcome u = Completed \<longrightarrow> (\<forall>t. tick_count u t = (if t \<in> inputs_read u then 1 else 0)))
   \<and> (\<forall>d r m. outcome (task_try throws 846 (device_body alpha A beta C queue_index layout d))
                 = Completed \<longrightarrow>
         tick_count (task_try throws 846 (device_body alpha A beta C queue_index layout d)) (m, r, 0)
         = (if m = MatC then 0
            else length (filter (\<lambda>(i, j). i = r) (device_lower C d))
                 + length (filter (\<lambda>(i, j). j = r) (device_lower C d))))
   \<and> (outcome (task_plain throws (single_tile_body alpha A beta C queue_index layout)) = Completed
        \<longrightarrow> (\<forall>t. tick_count (task_plain throws (single_tile_body alpha A beta C queue_index layout)) t
                 = (if t = (MatA, 0, 0) \<or> t = (MatB, 0, 0) then 2 else 0)))"
proof -
  have single: "tick_count (task_plain throws (single_tile_body alpha A beta C queue_index layout)) t
                 = (if t = (MatA, 0, 0) \<or> t = (MatB, 0, 0) then 2 else 0)"
    if "outcome (task_plain throws (single_tile_body alpha A beta C queue_index layout)) = Completed"
    for t
  proof -
    have "completed_calls (task_plain throws (single_tile_body alpha A beta C queue_index layout))
            = single_tile_calls alpha A beta C queue_index layout"
      using task_plain_Completed [OF that] by (simp add: single_tile_body_def)
    then show ?thesis
      by (cases t) (auto simp: tick_count_def single_tile_calls_def Let_def)
  qed
  show ?thesis
    using HostTask_ticks [of _ throws alpha beta C layout]
      HostNest_ticks [of _ throws alpha beta C layout]
      HostBatch_ticks [of _ with_mkl throws alpha A beta C layout]
      device_body_ticks [of throws alpha A beta C queue_index layout]
      single
    by blast
qed

lemma device_body_no_Throw:
  "batch_opA (op A) (op C) (is_real C) = Inr opA0 \<Longrightarrow>
     Throw e \<notin> set (device_body alpha A beta C queue_index layout d)"
  by (auto simp: device_body_def Let_def device_gemm_calls_def device_syr2k_calls_def)

lemma device_body_example_Completed:
  "outcome (task_try (\<lambda>c. False) 846 (device_body (1::real) example_A 1 example_C2 0 ColMajor 0))
     = Completed"
proof -
  have "batch_opA (op example_A) (op example_C2) (is_real example_C2) = Inr NoTrans"
    by (simp add: batch_opA_def example_A_def example_C2_def)
  then have "Throw e \<notin> set (device_body (1::real) example_A 1 example_C2 0 ColMajor 0)" for e
    by (rule device_body_no_Throw)
  then have "exec_body (\<lambda>c. False) (device_body (1::real) example_A 1 example_C2 0 ColMajor 0) =
     (body_calls (device_body (1::real) example_A 1 example_C2 0 ColMajor 0), Ok)"
    by (rule exec_body_never)
  then show ?thesis by (simp add: task_try_def)
qed

text \<open>
  An instance: on a 2 by 2 grid of tiles that all live on device 0, the unit of that
  device decrements \<^verbatim>\<open>A(1, 0)\<close> three times: for the tiles \<open>(1, 0)\<close> and \<open>(1, 1)\<close> of
  row 1 and once more for the tile \<open>(1, 1)\<close> of column 1.
\<close>

theorem ticks_by_unit_witness:
  "tick_count (task_try (\<lambda>c. False) 846 (device_body (1::real) example_A 1 example_C2 0 ColMajor 0))
     (MatA, 1, 0) = 3"
proof -
  have "tick_count (task_try (\<lambda>c. False) 846 (device_body (1::real) example_A 1 example_C2 0 ColMajor 0))
     (MatA, 1, 0) = length (filter (\<lambda>(i, j). i = 1) (device_lower example_C2 0))
                 + length (filter (\<lambda>(i, j). j = 1) (device_lower example_C2 0))"
    using ticks_by_unit [of "\<lambda>c. False" "1::real" 1 example_C2 ColMajor True example_A 0]
      device_body_example_Completed
    by auto
  then show ?thesis by (simp add: device_lower_example_C2)
qed

subsection \<open>Batch groups of the device-resident realization\<close>

lemma count_list_distinct: "distinct xs \<Longrightarrow> count_list xs x = (if x \<in> set xs then 1 else 0)"
  by (induction xs) auto

lemma count_list_map_inj: "inj f \<Longrightarrow> count_list (map f xs) (f x) = count_list xs x"
  by (induction xs) (auto simp: inj_def)

lemma concat_map_if: "concat (map (\<lambda>i. if P i then [f i] else []) xs) = map f (filter P xs)"
  by (induction xs) auto

lemma distinct_row: "distinct xs \<Longrightarrow> distinct [(i, j). i \<leftarrow> xs, P i j]"
  by (simp add: concat_map_if distinct_map inj_on_def)

lemma distinct_pairs:
  "distinct js \<Longrightarrow> distinct [(i, j). j \<leftarrow> js, i \<leftarrow> [f j..g j], P i j]"
proof (induction js)
  case Nil
  then show ?case by simp
next
  case (Cons j js)
  have "distinct [(i, j). i \<leftarrow> [f j..g j], P i j]"
    by (rule distinct_row) simp
  moreover have "set [(i, j). i \<leftarrow> [f j..g j], P i j]
      \<inter> set [(i, j'). j' \<leftarrow> js, i \<leftarrow> [f j'..g j'], P i j'] = {}"
    using Cons.prems by auto
  ultimately show ?case using Cons by simp
qed

lemma set_gemm00:
  "set (gemm00_tiles C d) =
     {(i, j). 0 \<le> j \<and> j \<le> nt C - 2 \<and> j + 1 \<le> i \<and> i \<le> mt C - 2 \<and> on_device C d i j}"
  by (auto simp: gemm00_tiles_def)

lemma set_gemm10:
  "set (gemm10_tiles C d) =
     {(i, j). i = mt C - 1 \<and> 0 \<le> j \<and> j \<le> nt C - 2 \<and> on_device C d (mt C - 1) j}"
  by (auto simp: gemm10_tiles_def)

lemma distinct_gemm00: "distinct (gemm00_tiles C d)"
  unfolding gemm00_tiles_def by (rule distinct_pairs) simp

lemma distinct_gemm10: "distinct (gemm10_tiles C d)"
  unfolding gemm10_tiles_def by (simp add: concat_map_if distinct_map inj_on_def)

lemma distinct_syr2k_0: "distinct (syr2k_0_tiles C d)"
  unfolding syr2k_0_tiles_def by (simp add: concat_map_if)

lemma gemm_groups_disjoint: "set (gemm00_tiles C d) \<inter> set (gemm10_tiles C d) = {}"
  by (auto simp: set_gemm00 set_gemm10)

lemma gemm_tile_once:
  assumes "mt C = nt C" "on_device C d i j" "0 \<le> j" "j < i" "i < mt C"
  shows "count_list (gemm00_tiles C d @ gemm10_tiles C d) (i, j) = 1"
proof -
  have d: "distinct (gemm00_tiles C d @ gemm10_tiles C d)"
    by (simp add: distinct_gemm00 distinct_gemm10 gemm_groups_disjoint)
  have "(i, j) \<in> set (gemm00_tiles C d @ gemm10_tiles C d)"
  proof (cases "i = mt C - 1")
    case True
    with assms show ?thesis by (simp add: set_gemm10)
  next
    case False
    with assms show ?thesis by (simp add: set_gemm00)
  qed
  then show ?thesis unfolding count_list_distinct [OF d] by (simp only: if_True)
qed

lemma syr2k_tile_once:
  assumes "mt C = nt C" "on_device C d j j" "0 \<le> j" "j < nt C"
  shows "count_list (syr2k_0_tiles C d @ syr2k_1_tiles C d) j = 1"
proof -
  have d: "distinct (syr2k_0_tiles C d @ syr2k_1_tiles C d)"
    by (auto simp: distinct_syr2k_0 syr2k_1_tiles_def) (auto simp: syr2k_0_tiles_def)
  have "j \<in> set (syr2k_0_tiles C d @ syr2k_1_tiles C d)"
  proof (cases "j = nt C - 1")
    case True
    with assms show ?thesis by (simp add: syr2k_1_tiles_def)
  next
    case False
    with assms show ?thesis by (simp add: syr2k_0_tiles_def)
  qed
  then show ?thesis unfolding count_list_distinct [OF d] by (simp only: if_True)
qed

lemma gemm_c_arrays_append [simp]:
  "gemm_c_arrays (ss @ ts) = gemm_c_arrays ss @ gemm_c_arrays ts"
  by (induction ss rule: gemm_c_arrays.induct) auto

lemma syr2k_c_arrays_append [simp]:
  "syr2k_c_arrays (ss @ ts) = syr2k_c_arrays ss @ syr2k_c_arrays ts"
  by (induction ss rule: syr2k_c_arrays.induct) auto

lemma gemm_c_arrays_map_Do_release [simp]:
  "gemm_c_arrays (map Do (device_release_ticks ts d)) = []"
  by (induction ts) (auto simp: device_release_ticks_def)

lemma syr2k_c_arrays_map_Do_release [simp]:
  "syr2k_c_arrays (map Do (device_release_ticks ts d)) = []"
  by (induction ts) (auto simp: device_release_ticks_def)

lemma gemm_c_arrays_gemm_calls [simp]:
  "gemm_c_arrays (device_gemm_calls layout opA opB mb00 nb00 mb10 nb10 kb alpha beta
       a00 b00 c00 a10 b10 c10) = filter (\<lambda>g. g \<noteq> []) [c00, c10]"
  by (simp add: device_gemm_calls_def)

lemma syr2k_c_arrays_gemm_calls [simp]:
  "syr2k_c_arrays (device_gemm_calls layout opA opB mb00 nb00 mb10 nb10 kb alpha beta
       a00 b00 c00 a10 b10 c10) = []"
  by (simp add: device_gemm_calls_def)

lemma gemm_c_arrays_syr2k_calls [simp]:
  "gemm_c_arrays (device_syr2k_calls layout ul opA nb0 nb1 kb alpha beta d0 d1) = []"
  by (simp add: device_syr2k_calls_def)

lemma syr2k_c_arrays_syr2k_calls [simp]:
  "syr2k_c_arrays (device_syr2k_calls layout ul opA nb0 nb1 kb alpha beta d0 d1) =
     filter (\<lambda>g. g \<noteq> []) [map (\<lambda>j. (MatC, j, j)) d0, map (\<lambda>j. (MatC, j, j)) d1]"
  by (simp add: device_syr2k_calls_def)

lemma device_body_gemm_groups:
  assumes "batch_opA (op A) (op C) (is_real C) = Inr opA0"
  shows "gemm_c_arrays (device_body alpha A beta C queue_index layout d) =
     filter (\<lambda>g. g \<noteq> []) [map (\<lambda>(i, j). (MatC, i, j)) (gemm00_tiles C d),
                             map (\<lambda>(i, j). (MatC, i, j)) (gemm10_tiles C d)]
     @ filter (\<lambda>g. g \<noteq> []) [map (\<lambda>(i, j). (MatC, i, j)) (gemm00_tiles C d),
                               map (\<lambda>(i, j). (MatC, i, j)) (gemm10_tiles C d)]"
  by (simp add: device_body_def assms Let_def)

lemma device_body_syr2k_groups:
  assumes "batch_opA (op A) (op C) (is_real C) = Inr opA0"
  shows "syr2k_c_arrays (device_body alpha A beta C queue_index layout d) =
     filter (\<lambda>g. g \<noteq> []) [map (\<lambda>j. (MatC, j, j)) (syr2k_0_tiles C d),
                             map (\<lambda>j. (MatC, j, j)) (syr2k_1_tiles C d)]"
  by (simp add: device_body_def assms Let_def)

text \<open>
  C8.  Let the tile grid of C be square with more than one block column, and let the
  dispatcher's operator check hold.  Then the units of the device-resident
  realization are the per-device tasks, and in the task of device \<open>d\<close>:
  the batched products are issued for the non-empty ones among the interior group and
  the bottom-row group, first for one orientation and then, with the same groups of C
  tiles, for the other (an empty group issues no call); the batched rank-2k calls are
  issued for the non-empty ones among the interior diagonal group and the corner
  group; every strictly-lower tile of C that is local and lives on \<open>d\<close> occurs exactly
  once in the two product groups taken together, and every such diagonal tile exactly
  once in the two rank-2k groups taken together.
\<close>

theorem device_batch_groups:
  fixes alpha :: "'a::one"
  assumes square: "mt C = nt C"
    and many: "1 < nt C"
    and pre: "is_real C \<or> (op C \<noteq> ConjTrans \<and> op A \<noteq> ConjTrans)"
    and devs: "0 < num_devices C"
    and tile: "on_device C d i j" "0 \<le> j" "j \<le> i" "i < mt C"
  shows
  "units (syr2k_Devices throws alpha A beta C queue_index layout) =
     map (\<lambda>device. task_try throws 846 (device_body alpha A beta C queue_index layout device))
       [0..num_devices C - 1]
   \<and> gemm_c_arrays (device_body alpha A beta C queue_index layout d) =
       filter (\<lambda>g. g \<noteq> []) [map (\<lambda>(i, j). (MatC, i, j)) (gemm00_tiles C d),
                               map (\<lambda>(i, j). (MatC, i, j)) (gemm10_tiles C d)]
       @ filter (\<lambda>g. g \<noteq> []) [map (\<lambda>(i, j). (MatC, i, j)) (gemm00_tiles C d),
                                 map (\<lambda>(i, j). (MatC, i, j)) (gemm10_tiles C d)]
   \<and> syr2k_c_arrays (device_body alpha A beta C queue_index layout d) =
       filter (\<lambda>g. g \<noteq> []) [map (\<lambda>j. (MatC, j, j)) (syr2k_0_tiles C d),
                               map (\<lambda>j. (MatC, j, j)) (syr2k_1_tiles C d)]
   \<and> (j < i \<longrightarrow>
        count_list (map (\<lambda>(i, j). (MatC, i, j)) (gemm00_tiles C d)
                    @ map (\<lambda>(i, j). (MatC, i, j)) (gemm10_tiles C d)) (MatC, i, j) = 1)
   \<and> (i = j \<longrightarrow>
        count_list (map (\<lambda>j. (MatC, j, j)) (syr2k_0_tiles C d)
                    @ map (\<lambda>j. (MatC, j, j)) (syr2k_1_tiles C d)) (MatC, j, j) = 1)"
proof -
  from precondition_opA [OF pre] obtain opA0 where
    opA0: "batch_opA (op A) (op C) (is_real C) = Inr opA0" ..
  have u: "units (syr2k_Devices throws alpha A beta C queue_index layout) =
     map (\<lambda>device. task_try throws 846 (device_body alpha A beta C queue_index layout device))
       [0..num_devices C - 1]"
    using many devs by (simp add: syr2k_Devices_def taskwait_and_rethrow_def)
  have inj1: "inj (\<lambda>(i::int, j::int). (MatC, i, j))"
    by (auto simp: inj_def)
  have inj2: "inj (\<lambda>j::int. (MatC, j, j))"
    by (auto simp: inj_def)
  have g: "count_list (map (\<lambda>(i, j). (MatC, i, j)) (gemm00_tiles C d)
                    @ map (\<lambda>(i, j). (MatC, i, j)) (gemm10_tiles C d)) (MatC, i, j) = 1"
    if "j < i"
    using gemm_tile_once [OF square tile(1,2) that tile(4)]
      count_list_map_inj [OF inj1, of "gemm00_tiles C d @ gemm10_tiles C d" "(i, j)"]
    by simp
  have s: "count_list (map (\<lambda>j. (MatC, j, j)) (syr2k_0_tiles C d)
                    @ map (\<lambda>j. (MatC, j, j)) (syr2k_1_tiles C d)) (MatC, j, j) = 1"
    if "i = j"
    using syr2k_tile_once [OF square, of d j] tile that square
      count_list_map_inj [OF inj2, of "syr2k_0_tiles C d @ syr2k_1_tiles C d" j]
    by simp
  show ?thesis
    using u device_body_gemm_groups [OF opA0, of alpha beta queue_index layout d]
      device_body_syr2k_groups [OF opA0, of alpha beta queue_index layout d] g s
    by blast
qed

text \<open>
  An instance: on a 2 by 2 grid of tiles that all live on device 0 the interior
  product group is empty and is skipped; the bottom-row group holds the tile
  \<open>(1, 0)\<close> and is issued once per orientation; each diagonal tile has its own
  rank-2k call.
\<close>

theorem device_batch_groups_witness:
  "gemm_c_arrays (device_body (1::real) example_A 1 example_C2 0 ColMajor 0) =
     [[(MatC, 1, 0)], [(MatC, 1, 0)]]
   \<and> syr2k_c_arrays (device_body (1::real) example_A 1 example_C2 0 ColMajor 0) =
     [[(MatC, 0, 0)], [(MatC, 1, 1)]]"
proof -
  have h: "mt example_C2 = nt example_C2" "1 < nt example_C2"
    "is_real example_C2 \<or> (op example_C2 \<noteq> ConjTrans \<and> op example_A \<noteq> ConjTrans)"
    "0 < num_devices example_C2" "on_device example_C2 0 1 0" "(0::int) \<le> 0" "(0::int) \<le> 1"
    "1 < mt example_C2"
    by (simp_all add: on_device_def example_C2_def)
  from device_batch_groups [OF h, where throws = "\<lambda>c. False" and alpha = "1::real"
      and beta = 1 and queue_index = 0 and layout = ColMajor]
  show ?thesis
    by (simp add: gemm00_example_C2 gemm10_example_C2 syr2k_0_example_C2 syr2k_1_example_C2)
qed

subsection \<open>The host-batched realization without its back-end\<close>

text \<open>
  C9, as stated, fails.  In a build without the batched host back-end, the
  host-batched realization on a single local tile spawns the task of that tile, joins
  it and returns: the branch that needs the back-end is entered only when some
  strictly-lower tile is local.
\<close>

theorem HostBatch_without_backend_returns:
  "syr2k False (\<lambda>c. False) HostBatch (1::real) example_A example_A 1 example_C1 0 0 ColMajor =
     \<lparr>units = [\<lparr>completed_calls = diag_calls 1 1 0, outcome = Completed\<rparr>], main_calls = [],
      joined = True, result = Returned\<rparr>"
  by (simp add: syr2k_def uplo_def syr2k_HostBatch_def diag_local_def strictly_lower_local_def
      upto_small batch_preload_def taskwait_and_rethrow_def task_try_def diag_body_def
      exec_body_never_Do escaped_def err_set_def example_C1_def example_A_def)

text \<open>
  C9, amended.  In a build without the batched host back-end, with the layout
  column-major and the dispatcher's operator check passed: the host-batched
  realization fails with the not-implemented exception only when some strictly-lower
  tile of C is local and fetching those tiles did not throw; and it does fail so
  whenever, in addition, the tile shapes meet the assertions of lines 322--324 (taken
  on the extents as narrowed to \<^verbatim>\<open>int\<close>).  It fails then after the tasks of the diagonal
  tiles have been spawned and the off-diagonal tiles fetched, and before the
  \<^verbatim>\<open>taskwait\<close>.  With no local strictly-lower tile the call joins its diagonal tasks
  and ends as every realization does.
\<close>

theorem HostBatch_without_backend:
  fixes alpha :: "'a::one"
  assumes "layout = ColMajor"
    and "is_real C \<or> (op C \<noteq> ConjTrans \<and> op A \<noteq> ConjTrans)"
  shows
  "(result (syr2k_HostBatch False throws alpha A beta C layout) = Raised NotImplementedException
      \<longrightarrow> strictly_lower_local C \<noteq> []
          \<and> \<not> snd (exec_calls throws (batch_preload (strictly_lower_local C))))
   \<and> (strictly_lower_local C \<noteq> []
        \<and> \<not> snd (exec_calls throws (batch_preload (strictly_lower_local C)))
        \<and> batch_shapes_ok A C (strictly_lower_local C)
      \<longrightarrow> result (syr2k_HostBatch False throws alpha A beta C layout)
            = Raised NotImplementedException)
   \<and> (result (syr2k_HostBatch False throws alpha A beta C layout) = Raised NotImplementedException
        \<longrightarrow> units (syr2k_HostBatch False throws alpha A beta C layout) =
              map (\<lambda>j. task_try throws 254 (diag_body alpha beta j)) (diag_local C)
            \<and> main_calls (syr2k_HostBatch False throws alpha A beta C layout) =
              batch_preload (strictly_lower_local C)
            \<and> \<not> joined (syr2k_HostBatch False throws alpha A beta C layout))
   \<and> (strictly_lower_local C = []
        \<longrightarrow> syr2k_HostBatch False throws alpha A beta C layout =
              taskwait_and_rethrow
                (map (\<lambda>j. task_try throws 254 (diag_body alpha beta j)) (diag_local C)) [])"
proof -
  from precondition_opA [OF assms(2)] obtain opA0 where
    opA0: "batch_opA (op A) (op C) (is_real C) = Inr opA0" ..
  let ?ts = "strictly_lower_local C"
  obtain tr b where e: "exec_calls throws (batch_preload ?ts :: 'a call list) = (tr, b)"
    by (cases "exec_calls throws (batch_preload ?ts :: 'a call list)")
  have tr: "tr = batch_preload ?ts" if "\<not> b"
    using e that exec_calls_no_throw by fastforce
  have r: "result (taskwait_and_rethrow us mc) \<noteq> Raised NotImplementedException"
    for us :: "'a unit_result list" and mc
    by (simp add: taskwait_and_rethrow_def)
  show ?thesis
    using assms(1) opA0 e tr r
    by (cases b; cases "?ts = []")
       (simp_all add: syr2k_HostBatch_def Let_def batch_preload_def)
qed

text \<open>
  An instance: on a 2 by 2 grid of local tiles of size 4 the call fails with the
  not-implemented exception, before the join, after fetching the tiles of \<open>(1, 0)\<close>.
\<close>

theorem HostBatch_without_backend_witness:
  "result (syr2k_HostBatch False (\<lambda>c. False) (1::real) example_A 1 example_C2 ColMajor)
     = Raised NotImplementedException
   \<and> \<not> joined (syr2k_HostBatch False (\<lambda>c. False) (1::real) example_A 1 example_C2 ColMajor)
   \<and> main_calls (syr2k_HostBatch False (\<lambda>c. False) (1::real) example_A 1 example_C2 ColMajor)
     = [tileGetForReading MatA 1 0, tileGetForReading MatB 0 0, tileGetForWriting MatC 1 0]"
proof -
  have h: "ColMajor = ColMajor"
    "is_real example_C2 \<or> (op example_C2 \<noteq> ConjTrans \<and> op example_A \<noteq> ConjTrans)"
    by (simp_all add: example_C2_def)
  have s: "batch_shapes_ok example_A example_C2 [(1, 0)]"
    by (simp add: batch_shapes_ok_def to_int32_def example_A_def example_C2_def)
  from HostBatch_without_backend [OF h, where throws = "\<lambda>c. False" and alpha = "1::real"
      and beta = 1] s
  show ?thesis
    by (simp add: strictly_lower_local_example_C2 exec_calls_never batch_preload_def)
qed

subsection \<open>The values left in the tiles of C\<close>






















text \<open>
  The updates of the bodies.
\<close>

lemma updates_of_Nil [simp]: "updates_of cj g [] = []"
  by (simp add: updates_of_def)

lemma updates_of_append [simp]:
  "updates_of cj g (xs @ ys) = updates_of cj g xs @ updates_of cj g ys"
  by (simp add: updates_of_def)


lemma tile_updates_Nil [simp]: "tile_updates cj g t [] = []"
  by (simp add: tile_updates_def)

lemma tile_updates_append [simp]:
  "tile_updates cj g t (xs @ ys) = tile_updates cj g t xs @ tile_updates cj g t ys"
  by (simp add: tile_updates_def)

lemma inputs_only_Nil [simp]: "inputs_only []"
  by (simp add: inputs_only_def)

lemma inputs_only_append [simp]: "inputs_only (xs @ ys) \<longleftrightarrow> inputs_only xs \<and> inputs_only ys"
  by (auto simp: inputs_only_def)




lemma updates_of_batch_preload [simp]: "updates_of cj g (batch_preload ts) = []"
  by (induction ts) (auto simp: updates_of_def batch_preload_def)

lemma updates_of_batch_ticks [simp]: "updates_of cj g (batch_ticks ts) = []"
  by (induction ts) (auto simp: updates_of_def batch_ticks_def)

lemma updates_of_device_release_ticks [simp]: "updates_of cj g (device_release_ticks ts d) = []"
  by (induction ts) (auto simp: updates_of_def device_release_ticks_def)

lemma tile_updates_batch_preload [simp]: "tile_updates cj g t (batch_preload ts) = []"
  by (simp add: tile_updates_def)





lemma target_of_gemm_update [simp]:
  "target_of (gemm_update cj opA0 sw mbf nbf kb alpha beta second x) = (MatC, fst x, snd x)"
  by (simp add: gemm_update_def target_of_def split_beta)

lemma target_of_syr2k_update [simp]:
  "target_of (syr2k_update cj ul opT nb kb alpha beta j) = (MatC, j, j)"
  by (simp add: syr2k_update_def target_of_def)

lemma inputs_only_gemm_updates [simp]:
  "inputs_only (map (gemm_update cj opA0 sw mbf nbf kb alpha beta second) ts)"
  by (auto simp: inputs_only_def gemm_update_def target_of_def split_beta)
























































section \<open>Properties of the device reduction kernels\<close>

subsection \<open>The Frobenius variant\<close>

lemma fro_reference_rows: "fro_reference ul n tm lda = (\<Sum>i<n. row_reference ul n tm lda i)"
  by (simp add: fro_reference_def row_reference_def sum.distrib sum_distrib_left)

lemma add_sumsq_holds:
  assumes "add_sumsq_ok env" "represents p v" "0 \<le> x"
  shows "represents (add_sumsq env p x) (v + x\<^sup>2)"
proof -
  obtain s q where p: "p = (s, q)" by (cases p)
  from assms(2) p have s: "0 \<le> s" "s\<^sup>2 * q = v" by (simp_all add: represents_def)
  from assms(1) [unfolded add_sumsq_ok_def, rule_format, OF s(1) assms(3), of q]
  show ?thesis by (simp add: p s(2))
qed

lemma combine_sumsq_holds:
  assumes "combine_sumsq_ok env" "represents p v" "represents p' v'"
  shows "represents (combine_sumsq env p p') (v + v')"
proof -
  obtain s1 q1 where p: "p = (s1, q1)" by (cases p)
  obtain s2 q2 where p': "p' = (s2, q2)" by (cases p')
  from assms(2,3) p p' have s: "0 \<le> s1" "s1\<^sup>2 * q1 = v" "0 \<le> s2" "s2\<^sup>2 * q2 = v'"
    by (simp_all add: represents_def)
  from assms(1) [unfolded combine_sumsq_ok_def, rule_format, OF s(1) s(3), of q1 q2]
  show ?thesis by (simp add: p p' s(2) s(4))
qed

lemma fold_add_sumsq_holds:
  "add_sumsq_ok env \<Longrightarrow> represents p v \<Longrightarrow>
     represents (fold (\<lambda>j acc. add_sumsq env acc (cmod (f j))) js p)
           (v + (\<Sum>j\<leftarrow>js. (cmod (f j))\<^sup>2))"
proof (induction js arbitrary: p v)
  case Nil
  then show ?case by simp
next
  case (Cons j js)
  from Cons.prems have "represents (add_sumsq env p (cmod (f j))) (v + (cmod (f j))\<^sup>2)"
    by (simp add: add_sumsq_holds)
  from Cons.IH [OF Cons.prems(1) this] show ?case by (simp add: add.assoc)
qed

lemma sum_list_map_rev: "(\<Sum>j\<leftarrow>rev xs. g j) = (\<Sum>j\<leftarrow>xs. (g j :: real))"
  by (simp only: rev_map [symmetric] sum_list_rev)

lemma sum_list_row_cols:
  assumes "i < n"
  shows "(\<Sum>j\<leftarrow>row_cols ul n i. (g j :: real)) = (\<Sum>j \<in> strict_cols ul n i. g j)"
proof (cases "ul = Lower")
  case True
  from assms have "row_cols ul n i = [0..<i]"
    using True by (simp add: row_cols_def)
  moreover have "strict_cols ul n i = set [0..<i]"
    using True by (auto simp: strict_cols_def)
  ultimately show ?thesis
    by (simp only: interv_sum_list_conv_sum_set_nat)
next
  case False
  then have "row_cols ul n i = rev [i + 1..<n]"
    by (simp add: row_cols_def)
  moreover have "strict_cols ul n i = set [i + 1..<n]"
    using False by (auto simp: strict_cols_def)
  ultimately show ?thesis
    by (simp only: sum_list_map_rev interv_sum_list_conv_sum_set_nat)
qed

lemma fro_row_holds:
  assumes "add_sumsq_ok env" "i < n"
  shows "represents (fro_row env ul n tm lda i) (row_reference ul n tm lda i)"
proof -
  let ?S = "\<Sum>j \<in> strict_cols ul n i. (cmod (tm (i + j * lda)))\<^sup>2"
  have "represents (0, 1) 0" by (simp add: represents_def)
  from fold_add_sumsq_holds [OF assms(1) this, of "\<lambda>j. tm (i + j * lda)" "row_cols ul n i"]
  have h: "represents (fold (\<lambda>j acc. add_sumsq env acc (cmod (tm (i + j * lda)))) (row_cols ul n i) (0, 1)) ?S"
    by (simp add: sum_list_row_cols [OF assms(2)])
  obtain s q where sq: "fold (\<lambda>j acc. add_sumsq env acc (cmod (tm (i + j * lda)))) (row_cols ul n i) (0, 1) = (s, q)"
    by (cases "fold (\<lambda>j acc. add_sumsq env acc (cmod (tm (i + j * lda)))) (row_cols ul n i) (0, 1)")
  with h have "represents (s, q * 2) (2 * ?S)"
    by (simp add: represents_def)
  from add_sumsq_holds [OF assms(1) this, of "\<bar>Re (tm (i + i * lda))\<bar>"]
  show ?thesis
    by (simp add: fro_row_def sq row_reference_def)
qed

lemma thread_rows_mod:
  "k \<in> set (thread_rows i n bd) \<Longrightarrow> k mod bd = i mod bd \<and> i \<le> k \<and> k < n"
proof (induction i n bd rule: thread_rows.induct)
  case (1 i n bd)
  show ?case
  proof (cases "i < n \<and> 0 < bd")
    case True
    with "1.prems" have "k = i \<or> k \<in> set (thread_rows (i + bd) n bd)"
      by (subst (asm) thread_rows.simps) simp
    then show ?thesis
    proof
      assume "k = i"
      with True show ?thesis by simp
    next
      assume "k \<in> set (thread_rows (i + bd) n bd)"
      from "1.IH" [OF True this] show ?thesis by simp
    qed
  next
    case False
    with "1.prems" show ?thesis by (subst (asm) thread_rows.simps) simp
  qed
qed

lemma fro_step_other:
  "c \<noteq> i mod bd \<Longrightarrow> fro_step env ul n tm lda bd i sh c = sh c"
  by (auto simp: fro_step_def Let_def)

lemma fro_step_first:
  assumes "add_sumsq_ok env" "combine_sumsq_ok env" "i < n" "i < bd"
  shows "represents (fro_step env ul n tm lda bd i sh (i mod bd)) (row_reference ul n tm lda i)"
proof -
  have "represents (0, 1) 0" by (simp add: represents_def)
  from combine_sumsq_holds [OF assms(2) this fro_row_holds [OF assms(1,3)]]
  show ?thesis using assms(4) by (simp add: fro_step_def Let_def)
qed

lemma fro_step_later:
  assumes "add_sumsq_ok env" "combine_sumsq_ok env" "i < n" "\<not> i < bd"
    and "represents (sh (i mod bd)) v"
  shows "represents (fro_step env ul n tm lda bd i sh (i mod bd)) (v + row_reference ul n tm lda i)"
  using combine_sumsq_holds [OF assms(2) assms(5) fro_row_holds [OF assms(1,3)]] assms(4)
  by (simp add: fro_step_def Let_def)

lemma fro_fold_later:
  assumes "add_sumsq_ok env" "combine_sumsq_ok env"
  shows "bd \<le> i \<Longrightarrow> represents (sh (i mod bd)) v \<Longrightarrow>
     represents (fold (fro_step env ul n tm lda bd) (thread_rows i n bd) sh (i mod bd))
       (v + (\<Sum>k\<leftarrow>thread_rows i n bd. row_reference ul n tm lda k))"
proof (induction i n bd arbitrary: sh v rule: thread_rows.induct)
  case (1 i n bd)
  show ?case
  proof (cases "i < n \<and> 0 < bd")
    case True
    then have rows: "thread_rows i n bd = i # thread_rows (i + bd) n bd"
      by (subst thread_rows.simps) simp
    from "1.prems" True have "represents (fro_step env ul n tm lda bd i sh (i mod bd))
        (v + row_reference ul n tm lda i)"
      by (intro fro_step_later assms) simp_all
    then have "represents (fro_step env ul n tm lda bd i sh ((i + bd) mod bd))
        (v + row_reference ul n tm lda i)"
      by simp
    moreover have "bd \<le> i + bd" by simp
    ultimately have "represents
        (fold (fro_step env ul n tm lda bd) (thread_rows (i + bd) n bd)
           (fro_step env ul n tm lda bd i sh) ((i + bd) mod bd))
        (v + row_reference ul n tm lda i
           + (\<Sum>k\<leftarrow>thread_rows (i + bd) n bd. row_reference ul n tm lda k))"
      using "1.IH" [OF True, where sh = "fro_step env ul n tm lda bd i sh"
          and v = "v + row_reference ul n tm lda i"]
      by blast
    then show ?thesis
      by (simp add: rows add.assoc)
  next
    case False
    then have "thread_rows i n bd = []"
      by (subst thread_rows.simps) simp
    with "1.prems" show ?thesis by simp
  qed
qed

lemma fro_thread_slot:
  assumes "add_sumsq_ok env" "combine_sumsq_ok env" "t < bd" "t < n"
  shows "represents (fro_thread env ul n tm lda bd t sh t)
           (\<Sum>k\<leftarrow>thread_rows t n bd. row_reference ul n tm lda k)"
proof -
  from assms(3,4) have rows: "thread_rows t n bd = t # thread_rows (t + bd) n bd"
    by (subst thread_rows.simps) simp
  from assms(3) have m: "(t + bd) mod bd = t" "t mod bd = t" by simp_all
  have "represents (fro_step env ul n tm lda bd t sh (t mod bd)) (row_reference ul n tm lda t)"
    by (rule fro_step_first) (use assms in simp_all)
  then have "represents (fro_step env ul n tm lda bd t sh ((t + bd) mod bd))
      (row_reference ul n tm lda t)"
    by (simp add: m)
  moreover have "bd \<le> t + bd" by simp
  ultimately have "represents
      (fold (fro_step env ul n tm lda bd) (thread_rows (t + bd) n bd)
         (fro_step env ul n tm lda bd t sh) ((t + bd) mod bd))
      (row_reference ul n tm lda t
         + (\<Sum>k\<leftarrow>thread_rows (t + bd) n bd. row_reference ul n tm lda k))"
    using fro_fold_later [OF assms(1,2), where sh = "fro_step env ul n tm lda bd t sh"
        and v = "row_reference ul n tm lda t" and i = "t + bd" and bd = bd and n = n
        and ul = ul and tm = tm and lda = lda]
    by blast
  then show ?thesis
    by (simp add: fro_thread_def rows m)
qed

lemma fro_fold_other:
  "\<forall>k \<in> set ks. c \<noteq> k mod bd \<Longrightarrow> fold (fro_step env ul n tm lda bd) ks sh c = sh c"
  by (induction ks arbitrary: sh) (simp_all add: fro_step_other)

lemma fro_thread_other:
  assumes "c \<noteq> t" "t < bd"
  shows "fro_thread env ul n tm lda bd t sh c = sh c"
  unfolding fro_thread_def
proof (rule fro_fold_other, rule ballI)
  fix k assume "k \<in> set (thread_rows t n bd)"
  from thread_rows_mod [OF this] assms show "c \<noteq> k mod bd" by simp
qed

lemma fro_threads:
  assumes "add_sumsq_ok env" "combine_sumsq_ok env"
  shows "m \<le> bd \<Longrightarrow> c < m \<Longrightarrow> c < n \<Longrightarrow>
     represents (fold (fro_thread env ul n tm lda bd) [0..<m] sh0 c)
       (\<Sum>k\<leftarrow>thread_rows c n bd. row_reference ul n tm lda k)"
proof (induction m)
  case 0
  then show ?case by simp
next
  case (Suc m)
  show ?case
  proof (cases "c = m")
    case True
    with Suc.prems show ?thesis
      by (simp add: fro_thread_slot [OF assms])
  next
    case False
    with Suc.prems have "c < m" by simp
    with Suc have "represents (fold (fro_thread env ul n tm lda bd) [0..<m] sh0 c)
       (\<Sum>k\<leftarrow>thread_rows c n bd. row_reference ul n tm lda k)"
      by simp
    with False Suc.prems show ?thesis
      by (simp add: fro_thread_other)
  qed
qed


lemma fro_final:
  assumes "combine_sumsq_ok env"
    and sh: "\<And>c. c < k \<Longrightarrow> represents (sh c) (V c)"
    and "1 \<le> k"
  shows "represents (fold (\<lambda>chunk acc. combine_sumsq env acc (sh chunk)) [1..<k] (sh 0))
           (\<Sum>c<k. V c)"
  using assms(3) sh
proof (induction k rule: dec_induct)
  case base
  then show ?case by simp
next
  case (step m)
  from step.prems have "represents (sh m) (V m)" by simp
  moreover from step have "represents
      (fold (\<lambda>chunk acc. combine_sumsq env acc (sh chunk)) [1..<m] (sh 0)) (\<Sum>c<m. V c)"
    by simp
  ultimately show ?case
    using step.hyps by (simp add: combine_sumsq_holds [OF assms(1)])
qed

lemma sum_list_thread_rows:
  "0 < bd \<Longrightarrow>
     (\<Sum>k\<leftarrow>thread_rows i n bd. (f k :: real)) = sum f {k. i \<le> k \<and> k < n \<and> k mod bd = i mod bd}"
proof (induction i n bd rule: thread_rows.induct)
  case (1 i n bd)
  show ?case
  proof (cases "i < n")
    case True
    with "1.prems" have rows: "thread_rows i n bd = i # thread_rows (i + bd) n bd"
      by (subst thread_rows.simps) simp
    have "{k. i \<le> k \<and> k < n \<and> k mod bd = i mod bd} =
        insert i {k. i + bd \<le> k \<and> k < n \<and> k mod bd = (i + bd) mod bd}" (is "?L = insert i ?R")
    proof (intro set_eqI iffI)
      fix k assume k: "k \<in> ?L"
      show "k \<in> insert i ?R"
      proof (cases "k = i")
        case True
        then show ?thesis by simp
      next
        case False
        with k have "i < k" by simp
        moreover from k have "bd dvd k - i"
          using mod_eq_dvd_iff_nat [of i k bd] by simp
        ultimately have "bd \<le> k - i"
          by (intro dvd_imp_le) simp_all
        with \<open>i < k\<close> have "i + bd \<le> k" by arith
        with k show ?thesis by simp
      qed
    next
      fix k assume "k \<in> insert i ?R"
      with True show "k \<in> ?L" by auto
    qed
    moreover have "finite ?R" by simp
    moreover have "i \<notin> ?R" using "1.prems" by simp
    ultimately show ?thesis
      using "1.IH" True "1.prems" by (simp add: rows)
  next
    case False
    then have "thread_rows i n bd = []"
      by (subst thread_rows.simps) simp
    moreover from False have "{k. i \<le> k \<and> k < n \<and> k mod bd = i mod bd} = {}" by auto
    ultimately show ?thesis by (simp only: list.map sum_list.Nil sum.empty)
  qed
qed

lemma sum_residues:
  assumes "0 < bd"
  shows "(\<Sum>c<min bd n. \<Sum>k\<leftarrow>thread_rows c n bd. (f k :: real)) = (\<Sum>i<n. f i)"
proof -
  have "(\<Sum>k\<leftarrow>thread_rows c n bd. f k) = sum f {k. k \<in> {..<n} \<and> k mod bd = c}"
    if "c < min bd n" for c
  proof -
    have "{k. c \<le> k \<and> k < n \<and> k mod bd = c} = {k. k \<in> {..<n} \<and> k mod bd = c}"
      using mod_less_eq_dividend [of _ bd] by auto
    with that sum_list_thread_rows [OF assms, where i = c and n = n and f = f]
    show ?thesis by simp
  qed
  then have "(\<Sum>c<min bd n. \<Sum>k\<leftarrow>thread_rows c n bd. f k) =
      (\<Sum>c<min bd n. sum f {k. k \<in> {..<n} \<and> k mod bd = c})"
    by simp
  also have "\<dots> = sum f {..<n}"
  proof (rule sum.group)
    show "(\<lambda>k. k mod bd) ` {..<n} \<subseteq> {..<min bd n}"
      using assms by (auto intro: le_less_trans [OF mod_less_eq_dividend])
  qed simp_all
  finally show ?thesis .
qed

lemma fro_block_represents:
  assumes "add_sumsq_ok env" "combine_sumsq_ok env" "1 \<le> n" "1 \<le> bd"
  shows "represents (fro_block env ul n tm lda bd) (fro_reference ul n tm lda)"
proof -
  let ?sh = "fold (fro_thread env ul n tm lda bd) [0..<bd]
               (\<lambda>c. (dynamic_data env c, dynamic_data env (bd + c)))"
  let ?V = "\<lambda>c. \<Sum>k\<leftarrow>thread_rows c n bd. row_reference ul n tm lda k"
  have "represents (?sh c) (?V c)" if "c < min bd n" for c
    using that by (intro fro_threads assms) simp_all
  moreover have "1 \<le> min bd n" using assms by simp
  ultimately have "represents
      (fold (\<lambda>chunk acc. combine_sumsq env acc (?sh chunk)) [1..<min bd n] (?sh 0))
      (\<Sum>c<min bd n. ?V c)"
    by (intro fro_final assms) simp_all
  moreover have "(\<Sum>c<min bd n. ?V c) = fro_reference ul n tm lda"
    using assms(4) by (simp add: sum_residues fro_reference_rows)
  ultimately show ?thesis
    by (simp add: fro_block_def Let_def)
qed

lemma ideal_add_sumsq_ok: "add_sumsq_ok ideal_env"
  unfolding add_sumsq_ok_def represents_def ideal_env_def
  by (auto simp: power2_eq_square field_simps)

lemma ideal_combine_sumsq_ok: "combine_sumsq_ok ideal_env"
  unfolding combine_sumsq_ok_def represents_def ideal_env_def
  by (auto simp: power2_eq_square field_simps)

lemma henorm_fro_kernel_out:
  "k < g \<Longrightarrow>
     henorm_fro_kernel env g bd ul n Aarray lda vals (k * 2) = fst (fro_block env ul n (Aarray k) lda bd)
     \<and> henorm_fro_kernel env g bd ul n Aarray lda vals (k * 2 + 1)
         = snd (fro_block env ul n (Aarray k) lda bd)"
proof (induction g)
  case 0
  then show ?case by simp
next
  case (Suc g)
  show ?case
  proof (cases "k = g")
    case True
    then show ?thesis by (simp add: henorm_fro_kernel_def)
  next
    case False
    with Suc.prems have "k < g" by simp
    with Suc.IH have "henorm_fro_kernel env g bd ul n Aarray lda vals (k * 2) =
        fst (fro_block env ul n (Aarray k) lda bd)
      \<and> henorm_fro_kernel env g bd ul n Aarray lda vals (k * 2 + 1)
         = snd (fro_block env ul n (Aarray k) lda bd)" by simp
    moreover from \<open>k < g\<close> have "k * 2 \<noteq> g * 2" "k * 2 \<noteq> g * 2 + 1" "k * 2 + 1 \<noteq> g * 2"
      "k * 2 + 1 \<noteq> g * 2 + 1" by arith+
    ultimately show ?thesis
      by (simp add: henorm_fro_kernel_def)
  qed
qed

text \<open>
  C5.  Let the two helpers do what they are documented to do.  Then for every tile of
  a batch with \<open>n \<ge> 1\<close> the pair that the Frobenius variant of \<^verbatim>\<open>henorm\<close> writes for
  the tile has a non-negative scale and satisfies \<open>scale\<^sup>2 * sumsq =\<close> the sum of the
  squared moduli over the declared strict triangle, counted twice, plus the squared
  real parts of the diagonal entries, counted once.
\<close>

theorem henorm_fro_scaled_sumsq:
  assumes "add_sumsq_ok env" and "combine_sumsq_ok env"
    and "1 \<le> n" and "k < batch_count"
  shows "0 \<le> values_out (henorm env hip_ok Fro_norm ul n Aarray lda vals 2 batch_count) (k * 2)
   \<and> (values_out (henorm env hip_ok Fro_norm ul n Aarray lda vals 2 batch_count) (k * 2))\<^sup>2
       * values_out (henorm env hip_ok Fro_norm ul n Aarray lda vals 2 batch_count) (k * 2 + 1)
     = fro_reference ul n (Aarray k) lda"
proof -
  have "represents (fro_block env ul n (Aarray k) lda 512) (fro_reference ul n (Aarray k) lda)"
    by (rule fro_block_represents) (use assms in simp_all)
  moreover from assms(3,4) have
    "values_out (henorm env hip_ok Fro_norm ul n Aarray lda vals 2 batch_count)
       = henorm_fro_kernel env batch_count 512 ul n Aarray lda vals"
    by (simp add: henorm_def finish_def)
  ultimately show ?thesis
    using henorm_fro_kernel_out [OF assms(4), of env 512 ul n Aarray lda vals]
    by (simp add: represents_def)
qed

lemma strict_cols_Lower: "strict_cols Lower n i = {..<i}"
  by (auto simp: strict_cols_def)

lemma fro_reference_example: "fro_reference Lower 2 example_tile 2 = 185"
  by (simp add: fro_reference_def strict_cols_Lower example_tile_def eval_nat_numeral
      lessThan_Suc)

text \<open>
  An instance, with the helpers of the scale-rebasing rule: for the example tile,
  stored in the lower triangle, \<open>2 * 4\<^sup>2 + 3\<^sup>2 + 12\<^sup>2 = 185\<close>; the entry \<open>100\<close> above the
  diagonal does not count.
\<close>

theorem henorm_fro_scaled_sumsq_witness:
  "(values_out (henorm ideal_env True Fro_norm Lower 2 (\<lambda>b. example_tile) 2 (\<lambda>i. 0) 2 1) 0)\<^sup>2
     * values_out (henorm ideal_env True Fro_norm Lower 2 (\<lambda>b. example_tile) 2 (\<lambda>i. 0) 2 1) 1
   = 185"
  using henorm_fro_scaled_sumsq [OF ideal_add_sumsq_ok ideal_combine_sumsq_ok,
      of 2 0 1 True Lower "\<lambda>b. example_tile" 2 "\<lambda>i. 0"]
  by (simp add: fro_reference_example)

subsection \<open>The one-norm variant\<close>

text \<open>
  The rows a thread visits, and what the kernel leaves in the output array: entry
  \<open>k * ldv + j\<close> holds the sum for column \<open>j\<close> of tile \<open>k\<close>.
\<close>

lemma set_thread_rows:
  "0 < bd \<Longrightarrow> set (thread_rows i n bd) = {k. i \<le> k \<and> k < n \<and> k mod bd = i mod bd}"
proof (induction i n bd rule: thread_rows.induct)
  case (1 i n bd)
  show ?case
  proof (cases "i < n")
    case True
    with "1.prems" have rows: "thread_rows i n bd = i # thread_rows (i + bd) n bd"
      by (subst thread_rows.simps) simp
    have "{k. i \<le> k \<and> k < n \<and> k mod bd = i mod bd} =
        insert i {k. i + bd \<le> k \<and> k < n \<and> k mod bd = (i + bd) mod bd}" (is "?L = insert i ?R")
    proof (intro set_eqI iffI)
      fix k assume k: "k \<in> ?L"
      show "k \<in> insert i ?R"
      proof (cases "k = i")
        case True
        then show ?thesis by simp
      next
        case False
        with k have "i < k" by simp
        moreover from k have "bd dvd k - i"
          using mod_eq_dvd_iff_nat [of i k bd] by simp
        ultimately have "bd \<le> k - i"
          by (intro dvd_imp_le) simp_all
        with \<open>i < k\<close> have "i + bd \<le> k" by arith
        with k show ?thesis by simp
      qed
    next
      fix k assume "k \<in> insert i ?R"
      with True show "k \<in> ?L" by auto
    qed
    then show ?thesis
      using "1.IH" True "1.prems" by (simp add: rows)
  next
    case False
    then have "thread_rows i n bd = []"
      by (subst thread_rows.simps) simp
    moreover from False have "{k. i \<le> k \<and> k < n \<and> k mod bd = i mod bd} = {}" by auto
    ultimately show ?thesis by (simp only: list.set)
  qed
qed

lemma fold_upd_other:
  "idx \<notin> h ` set ks \<Longrightarrow> fold (\<lambda>k out. out(h k := v k)) ks out idx = out idx"
  by (induction ks arbitrary: out) auto

lemma fold_upd_hit:
  "k0 \<in> set ks \<Longrightarrow> inj_on h (set ks) \<Longrightarrow> fold (\<lambda>k out. out(h k := v k)) ks out (h k0) = v k0"
proof (induction ks arbitrary: out)
  case Nil
  then show ?case by simp
next
  case (Cons k ks)
  show ?case
  proof (cases "k0 \<in> set ks")
    case True
    with Cons show ?thesis by (simp add: inj_on_def)
  next
    case False
    with Cons.prems have k0: "k0 = k" by simp
    from Cons.prems False have "h k0 \<notin> h ` set ks"
      by (auto simp: inj_on_def)
    then have "fold (\<lambda>k out. out(h k := v k)) ks (out(h k := v k)) (h k0)
        = (out(h k := v k)) (h k0)"
      by (rule fold_upd_other)
    then show ?thesis
      by (simp only: k0 fold_simps comp_apply fun_upd_same)
  qed
qed

lemma one_thread_other:
  assumes "0 < bd" "t < bd" "\<not> (\<exists>k'. k' < n \<and> k' mod bd = t \<and> idx = b * ldv + k')"
  shows "one_thread ul n tm lda ldv bd b t out idx = out idx"
  unfolding one_thread_def
proof (rule fold_upd_other)
  show "idx \<notin> (\<lambda>k. b * ldv + k) ` set (thread_rows t n bd)"
    using assms by (auto simp: set_thread_rows)
qed

lemma one_thread_hit:
  assumes "0 < bd" "j < n"
  shows "one_thread ul n tm lda ldv bd b (j mod bd) out (b * ldv + j) = one_sum ul n tm lda j"
  unfolding one_thread_def
proof (rule fold_upd_hit)
  show "j \<in> set (thread_rows (j mod bd) n bd)"
    using assms by (simp add: set_thread_rows mod_less_eq_dividend)
  show "inj_on (\<lambda>k. b * ldv + k) (set (thread_rows (j mod bd) n bd))"
    by (simp add: inj_on_def)
qed

lemma one_block_hit:
  assumes "0 < bd" "j < n"
  shows "m \<le> bd \<Longrightarrow> j mod bd < m \<Longrightarrow>
     fold (one_thread ul n tm lda ldv bd b) [0..<m] out (b * ldv + j) = one_sum ul n tm lda j"
proof (induction m)
  case 0
  then show ?case by simp
next
  case (Suc m)
  show ?case
  proof (cases "j mod bd = m")
    case True
    then show ?thesis using one_thread_hit [OF assms, of ul tm lda ldv b] by simp
  next
    case False
    with Suc.prems have "j mod bd < m" by simp
    with Suc have "fold (one_thread ul n tm lda ldv bd b) [0..<m] out (b * ldv + j)
        = one_sum ul n tm lda j" by simp
    moreover have "\<not> (\<exists>k'. k' < n \<and> k' mod bd = m \<and> b * ldv + j = b * ldv + k')"
      using False by auto
    ultimately show ?thesis
      using Suc.prems assms(1) by (simp add: one_thread_other)
  qed
qed

lemma one_block_other:
  assumes "0 < bd" "\<not> (\<exists>k'. k' < n \<and> idx = b * ldv + k')"
  shows "m \<le> bd \<Longrightarrow> fold (one_thread ul n tm lda ldv bd b) [0..<m] out idx = out idx"
proof (induction m)
  case 0
  then show ?case by simp
next
  case (Suc m)
  moreover have "\<not> (\<exists>k'. k' < n \<and> k' mod bd = m \<and> idx = b * ldv + k')"
    using assms(2) by auto
  ultimately show ?case
    using assms(1) by (simp add: one_thread_other)
qed

lemma henorm_one_kernel_out:
  assumes "0 < bd" "n \<le> ldv" "j < n"
  shows "k < g \<Longrightarrow>
     henorm_one_kernel g bd ul n Aarray lda vals ldv (k * ldv + j) = one_sum ul n (Aarray k) lda j"
proof (induction g)
  case 0
  then show ?case by simp
next
  case (Suc g)
  show ?case
  proof (cases "k = g")
    case True
    from assms(1) have "j mod bd < bd" by simp
    from one_block_hit [OF assms(1,3) le_refl this] True show ?thesis
      by (simp add: henorm_one_kernel_def)
  next
    case False
    with Suc.prems have kg: "k < g" by simp
    have "\<not> (\<exists>k'. k' < n \<and> k * ldv + j = g * ldv + k')"
    proof
      assume "\<exists>k'. k' < n \<and> k * ldv + j = g * ldv + k'"
      then obtain k' where k': "k * ldv + j = g * ldv + k'" by blast
      from kg have "Suc k \<le> g" by simp
      then have "Suc k * ldv \<le> g * ldv" by (rule mult_le_mono1)
      moreover from assms(2,3) have "k * ldv + j < Suc k * ldv" by simp
      ultimately show False using k' by simp
    qed
    from one_block_other [OF assms(1) this le_refl] Suc.IH [OF kg] show ?thesis
      by (simp add: henorm_one_kernel_def)
  qed
qed

lemma one_sum_example:
  "one_sum Lower 2 example_tile 2 0 = 7" "one_sum Lower 2 example_tile 2 1 = 16"
  by (simp_all add: one_sum_def example_tile_def eval_nat_numeral upt_rec)

subsection \<open>Only the declared triangle is read\<close>

text \<open>
  For each of the three kernels, and so for \<^verbatim>\<open>henorm\<close> with any norm kind and any
  helpers: tiles that agree on the declared strict triangle and on the real parts of
  the diagonal give the same output array.
\<close>

lemma set_row_cols: "i < n \<Longrightarrow> set (row_cols ul n i) = strict_cols ul n i"
  by (auto simp: row_cols_def strict_cols_def)

lemma thread_rows_less: "k \<in> set (thread_rows i n bd) \<Longrightarrow> k < n"
proof (induction i n bd rule: thread_rows.induct)
  case (1 i n bd)
  then show ?case
    by (subst (asm) (2) thread_rows.simps) (auto split: if_splits)
qed

lemma max_row_agree:
  assumes "agree_declared ul n lda tm tm'" "i < n"
  shows "max_row env ul n tm lda i = max_row env ul n tm' lda i"
proof -
  have "fold (\<lambda>j m. max_nan env m (cmod (tm (i + j * lda)))) (row_cols ul n i) 0 =
      fold (\<lambda>j m. max_nan env m (cmod (tm' (i + j * lda)))) (row_cols ul n i) 0"
    using assms by (intro fold_cong) (auto simp: set_row_cols agree_declared_def)
  moreover from assms have "Re (tm (i + i * lda)) = Re (tm' (i + i * lda))"
    by (simp add: agree_declared_def)
  ultimately show ?thesis by (simp add: max_row_def)
qed

lemma max_block_agree:
  assumes "agree_declared ul n lda tm tm'"
  shows "max_block env ul n tm lda bd = max_block env ul n tm' lda bd"
proof -
  have step: "max_step env ul n tm lda bd i = max_step env ul n tm' lda bd i" if "i < n" for i
    using max_row_agree [OF assms that] by (simp add: max_step_def fun_eq_iff)
  have "max_thread env ul n tm lda bd t sh = max_thread env ul n tm' lda bd t sh" for t sh
    unfolding max_thread_def by (rule fold_cong) (auto simp: step dest: thread_rows_less)
  then have "max_thread env ul n tm lda bd = max_thread env ul n tm' lda bd"
    by (intro ext) simp
  then show ?thesis by (simp add: max_block_def)
qed

lemma fro_row_agree:
  assumes "agree_declared ul n lda tm tm'" "i < n"
  shows "fro_row env ul n tm lda i = fro_row env ul n tm' lda i"
proof -
  have "fold (\<lambda>j acc. add_sumsq env acc (cmod (tm (i + j * lda)))) (row_cols ul n i) (0, 1) =
      fold (\<lambda>j acc. add_sumsq env acc (cmod (tm' (i + j * lda)))) (row_cols ul n i) (0, 1)"
    using assms by (intro fold_cong) (auto simp: set_row_cols agree_declared_def)
  moreover from assms have "Re (tm (i + i * lda)) = Re (tm' (i + i * lda))"
    by (simp add: agree_declared_def)
  ultimately show ?thesis by (simp add: fro_row_def)
qed

lemma fro_block_agree:
  assumes "agree_declared ul n lda tm tm'"
  shows "fro_block env ul n tm lda bd = fro_block env ul n tm' lda bd"
proof -
  have step: "fro_step env ul n tm lda bd i = fro_step env ul n tm' lda bd i" if "i < n" for i
    using fro_row_agree [OF assms that] by (simp add: fro_step_def fun_eq_iff)
  have "fro_thread env ul n tm lda bd t sh = fro_thread env ul n tm' lda bd t sh" for t sh
    unfolding fro_thread_def by (rule fold_cong) (auto simp: step dest: thread_rows_less)
  then have "fro_thread env ul n tm lda bd = fro_thread env ul n tm' lda bd"
    by (intro ext) simp
  then show ?thesis by (simp add: fro_block_def)
qed

lemma one_sum_agree:
  assumes "agree_declared ul n lda tm tm'" "k < n"
  shows "one_sum ul n tm lda k = one_sum ul n tm' lda k"
proof -
  have row: "tm (k + j * lda) = tm' (k + j * lda)" if "j \<in> strict_cols ul n k" for j
    using assms that by (simp add: agree_declared_def)
  have col: "tm (lda * k + i) = tm' (lda * k + i)" if "i < n" "k \<in> strict_cols ul n i" for i
    using assms(1) that by (simp add: agree_declared_def add.commute mult.commute)
  have diag: "Re (tm (k + k * lda)) = Re (tm' (k + k * lda))"
    using assms by (simp add: agree_declared_def)
  show ?thesis
  proof (cases "ul = Lower")
    case True
    have "fold (\<lambda>j s. s + cmod (tm (k + j * lda))) [0..<k] 0 =
        fold (\<lambda>j s. s + cmod (tm' (k + j * lda))) [0..<k] 0"
      using True by (intro fold_cong refl) (simp add: row strict_cols_def)
    moreover have "fold (\<lambda>i s. s + cmod (tm (lda * k + i))) [k + 1..<n] a =
        fold (\<lambda>i s. s + cmod (tm' (lda * k + i))) [k + 1..<n] a" for a
      using True by (intro fold_cong refl) (simp add: col strict_cols_def)
    ultimately show ?thesis using True by (simp add: one_sum_def diag)
  next
    case False
    have "fold (\<lambda>j s. s + cmod (tm (k + j * lda))) (rev [k + 1..<n]) 0 =
        fold (\<lambda>j s. s + cmod (tm' (k + j * lda))) (rev [k + 1..<n]) 0"
      using False by (intro fold_cong refl) (simp add: row strict_cols_def)
    moreover have "fold (\<lambda>i s. s + cmod (tm (lda * k + i))) [0..<min k n] a =
        fold (\<lambda>i s. s + cmod (tm' (lda * k + i))) [0..<min k n] a" for a
      using False assms(2) by (intro fold_cong refl) (simp add: col strict_cols_def)
    ultimately show ?thesis using False by (simp add: one_sum_def diag)
  qed
qed


lemma henorm_max_kernel_agree:
  assumes "\<And>b. b < g \<Longrightarrow> agree_declared ul n lda (Aarray b) (Aarray' b)"
  shows "henorm_max_kernel env g bd ul n Aarray lda vals = henorm_max_kernel env g bd ul n Aarray' lda vals"
  unfolding henorm_max_kernel_def
  by (rule fold_cong) (auto simp: max_block_agree [OF assms])

lemma henorm_fro_kernel_agree:
  assumes "\<And>b. b < g \<Longrightarrow> agree_declared ul n lda (Aarray b) (Aarray' b)"
  shows "henorm_fro_kernel env g bd ul n Aarray lda vals = henorm_fro_kernel env g bd ul n Aarray' lda vals"
  unfolding henorm_fro_kernel_def
  by (rule fold_cong) (auto simp: fro_block_agree [OF assms])

lemma one_thread_agree:
  assumes "agree_declared ul n lda tm tm'"
  shows "one_thread ul n tm lda ldv bd b t out = one_thread ul n tm' lda ldv bd b t out"
  unfolding one_thread_def
  by (rule fold_cong) (auto simp: one_sum_agree [OF assms] dest: thread_rows_less)

lemma henorm_one_kernel_agree:
  assumes "\<And>b. b < g \<Longrightarrow> agree_declared ul n lda (Aarray b) (Aarray' b)"
  shows "henorm_one_kernel g bd ul n Aarray lda vals ldv = henorm_one_kernel g bd ul n Aarray' lda vals ldv"
  unfolding henorm_one_kernel_def
proof (rule fold_cong)
  fix b assume "b \<in> set [0..<g]"
  then have "agree_declared ul n lda (Aarray b) (Aarray' b)" using assms by simp
  then have "one_thread ul n (Aarray b) lda ldv bd b = one_thread ul n (Aarray' b) lda ldv bd b"
    by (intro ext one_thread_agree)
  then show "(\<lambda>out. fold (one_thread ul n (Aarray b) lda ldv bd b) [0..<bd] out) =
      (\<lambda>out. fold (one_thread ul n (Aarray' b) lda ldv bd b) [0..<bd] out)"
    by simp
qed simp_all

lemma henorm_declared_triangle_only:
  assumes "\<And>b. b < batch_count \<Longrightarrow> agree_declared ul n lda (Aarray b) (Aarray' b)"
  shows "values_out (henorm env hip_ok nrm ul n Aarray lda vals ldv batch_count) =
     values_out (henorm env hip_ok nrm ul n Aarray' lda vals ldv batch_count)"
  using henorm_max_kernel_agree [of batch_count ul n lda Aarray Aarray' env 512 vals]
    henorm_fro_kernel_agree [of batch_count ul n lda Aarray Aarray' env 512 vals]
    henorm_one_kernel_agree [of batch_count ul n lda Aarray Aarray' 512 vals ldv] assms
  by (simp add: henorm_def finish_def)

subsection \<open>The batched entry point\<close>

text \<open>
  C6.  The output stride is documented with the output array (lines 269--286):
  \<open>ldv = 1\<close> for max-abs, \<open>ldv \<ge> n\<close> for the one-norm, \<open>ldv = 2\<close> for Frobenius; the
  launch branches assert it (lines 319, 331, 342).  With \<open>batch_count = 0\<close>,
  \<^verbatim>\<open>henorm\<close> does nothing and leaves the output untouched.  With \<open>batch_count \<ge> 1\<close> and
  \<open>n = 0\<close> it launches nothing and sets to zero the first \<open>batch_count\<close> entries for
  max-abs, \<open>batch_count * n = 0\<close> entries for the one-norm (whose per-column regions are
  empty), and \<open>2 * batch_count\<close> entries for Frobenius, whatever the stride.  With
  \<open>batch_count \<ge> 1\<close>, \<open>n \<ge> 1\<close> and the documented stride it launches exactly one kernel,
  with one block per tile and 512 threads per block, and sets nothing to zero.
\<close>

theorem henorm_cases:
  "henorm env hip_ok nrm ul n Aarray lda vals ldv 0 =
     \<lparr>launches = [], memsets = [], values_out = vals, status = Done\<rparr>
   \<and> (1 \<le> batch_count \<longrightarrow>
        launches (henorm env hip_ok Max_norm ul 0 Aarray lda vals ldv batch_count) = []
        \<and> values_out (henorm env hip_ok Max_norm ul 0 Aarray lda vals ldv batch_count)
            = device_memset vals batch_count
        \<and> launches (henorm env hip_ok One_norm ul 0 Aarray lda vals ldv batch_count) = []
        \<and> values_out (henorm env hip_ok One_norm ul 0 Aarray lda vals ldv batch_count)
            = device_memset vals (batch_count * 0)
        \<and> launches (henorm env hip_ok Fro_norm ul 0 Aarray lda vals ldv batch_count) = []
        \<and> values_out (henorm env hip_ok Fro_norm ul 0 Aarray lda vals ldv batch_count)
            = device_memset vals (batch_count * 2))
   \<and> (1 \<le> batch_count \<longrightarrow> 1 \<le> n \<longrightarrow>
        (ldv = 1 \<longrightarrow>
           launches (henorm env hip_ok Max_norm ul n Aarray lda vals ldv batch_count)
             = [hipLaunchKernelGGL max_kernel batch_count 512 512 ul n Aarray lda None]
           \<and> memsets (henorm env hip_ok Max_norm ul n Aarray lda vals ldv batch_count) = [])
        \<and> (n \<le> ldv \<longrightarrow>
           launches (henorm env hip_ok One_norm ul n Aarray lda vals ldv batch_count)
             = [hipLaunchKernelGGL one_kernel batch_count 512 0 ul n Aarray lda (Some ldv)]
           \<and> memsets (henorm env hip_ok One_norm ul n Aarray lda vals ldv batch_count) = [])
        \<and> (ldv = 2 \<longrightarrow>
           launches (henorm env hip_ok Fro_norm ul n Aarray lda vals ldv batch_count)
             = [hipLaunchKernelGGL fro_kernel batch_count 512 1024 ul n Aarray lda None]
           \<and> memsets (henorm env hip_ok Fro_norm ul n Aarray lda vals ldv batch_count) = []))"
  by (simp add: henorm_def finish_def)

text \<open>
  Instances: three tiles of size 2 give one launch of the max-abs kernel with three
  blocks; three tiles of size 0 set the first six entries of the output of the
  Frobenius variant to zero and leave the seventh as it was.
\<close>

theorem henorm_cases_witness:
  "launches (henorm ideal_env True Max_norm Lower 2 (\<lambda>b. example_tile) 2 (\<lambda>i. 7) 1 3)
     = [hipLaunchKernelGGL max_kernel 3 512 512 Lower 2 (\<lambda>b. example_tile) 2 None]
   \<and> values_out (henorm ideal_env True Fro_norm Lower 0 (\<lambda>b. example_tile) 2 (\<lambda>i. 7) 2 3) 5 = 0
   \<and> values_out (henorm ideal_env True Fro_norm Lower 0 (\<lambda>b. example_tile) 2 (\<lambda>i. 7) 2 3) 6 = 7"
  using henorm_cases [of ideal_env True Max_norm Lower 2 "\<lambda>b. example_tile" 2 "\<lambda>i. 7" 1 3]
    henorm_cases [of ideal_env True Fro_norm Lower 0 "\<lambda>b. example_tile" 2 "\<lambda>i. 7" 2 3]
  by (simp add: device_memset_def)

text \<open>
  C10.  For every input, \<^verbatim>\<open>henorm\<close> with the norm kind \<open>Inf\<close> does what it does with
  the norm kind \<open>One\<close>: the whole run is the same (launches with their arguments,
  memsets, output array, status).  With at least one tile, \<open>n \<ge> 1\<close> and the asserted
  \<open>ldv \<ge> n\<close>, that run is one launch of the one-norm kernel with the arguments of the
  call, and the output array receives the sum of column \<open>j\<close> of tile \<open>k\<close> at
  \<open>k * ldv + j\<close>.
\<close>

theorem henorm_Inf_as_One:
  "henorm env hip_ok Inf_norm ul n Aarray lda vals ldv batch_count
     = henorm env hip_ok One_norm ul n Aarray lda vals ldv batch_count
   \<and> (1 \<le> batch_count \<longrightarrow> 1 \<le> n \<longrightarrow> n \<le> ldv \<longrightarrow>
        launches (henorm env hip_ok Inf_norm ul n Aarray lda vals ldv batch_count)
          = [hipLaunchKernelGGL one_kernel batch_count 512 0 ul n Aarray lda (Some ldv)]
        \<and> (\<forall>k<batch_count. \<forall>j<n.
              values_out (henorm env hip_ok Inf_norm ul n Aarray lda vals ldv batch_count)
                (k * ldv + j) = one_sum ul n (Aarray k) lda j))"
proof -
  have "henorm_one_kernel batch_count 512 ul n Aarray lda vals ldv (k * ldv + j)
      = one_sum ul n (Aarray k) lda j"
    if "n \<le> ldv" "k < batch_count" "j < n" for k j
    using henorm_one_kernel_out [of 512 n ldv j k batch_count ul Aarray lda vals] that by simp
  then show ?thesis
    by (simp add: henorm_def finish_def)
qed

text \<open>
  An instance: the example tile, stored in the lower triangle, has the column sums
  \<open>3 + 4 = 7\<close> and \<open>4 + 12 = 16\<close> under both norm kinds.
\<close>

theorem henorm_Inf_as_One_witness:
  "values_out (henorm ideal_env True Inf_norm Lower 2 (\<lambda>b. example_tile) 2 (\<lambda>i. 0) 2 1) 0 = 7
   \<and> values_out (henorm ideal_env True Inf_norm Lower 2 (\<lambda>b. example_tile) 2 (\<lambda>i. 0) 2 1) 1 = 16
   \<and> values_out (henorm ideal_env True One_norm Lower 2 (\<lambda>b. example_tile) 2 (\<lambda>i. 0) 2 1) 1 = 16"
proof -
  let ?inf = "henorm ideal_env True Inf_norm Lower 2 (\<lambda>b. example_tile) 2 (\<lambda>i. 0) 2 1"
  let ?one = "henorm ideal_env True One_norm Lower 2 (\<lambda>b. example_tile) 2 (\<lambda>i. 0) 2 1"
  note w = henorm_Inf_as_One [of ideal_env True Lower 2 "\<lambda>b. example_tile" 2 "\<lambda>i. 0" 2 1]
  from w have eq: "?inf = ?one" by (rule conjunct1)
  from w have "(1::nat) \<le> 1 \<longrightarrow> (1::nat) \<le> 2 \<longrightarrow> (2::nat) \<le> 2 \<longrightarrow>
      launches ?inf = [hipLaunchKernelGGL one_kernel 1 512 0 Lower 2 (\<lambda>b. example_tile) 2 (Some 2)]
      \<and> (\<forall>k<1. \<forall>j<2. values_out ?inf (k * 2 + j) = one_sum Lower 2 example_tile 2 j)"
    by (rule conjunct2)
  moreover have "(1::nat) \<le> 1" "(1::nat) \<le> 2" "(2::nat) \<le> 2" by simp_all
  ultimately have v: "\<And>k j. k < 1 \<Longrightarrow> j < 2 \<Longrightarrow> values_out ?inf (k * 2 + j) = one_sum Lower 2 example_tile 2 j"
    by blast
  have v0: "values_out ?inf 0 = 7"
    using v [of 0 0] one_sum_example by simp
  have v1: "values_out ?inf 1 = 16"
    using v [of 0 1] one_sum_example by simp
  from v0 v1 eq show ?thesis by (simp only: simp_thms)
qed

end
